theory Spec2Isabelle
  imports Main
begin

section \<open>JavaScript values and rows\<close>

text \<open>
  The loader (\<^verbatim>\<open>src/data/EllipticDataLoader.js\<close>) works on row objects delivered by
  the CSV parser: a row maps column names to scalars.  A property that is absent reads as
  \<^verbatim>\<open>undefined\<close>.  JavaScript numbers are IEEE doubles; the development is parametric in
  the type \<open>'n\<close> of numbers and in the primitive operations on them (record \<open>numops\<close>), so
  every general theorem holds for whatever these operations do, IEEE rounding included.
  Strings are \<open>char list\<close>s (8-bit characters).  Console output is not modelled; values
  that are not scalars (the parser's \<^verbatim>\<open>__parsed_extra\<close> arrays) are outside the model.
  The loader exists in a second revision that reads the column \<^verbatim>\<open>Time step\<close> and
  samples under an examination ceiling; its definitions carry the suffix \<open>_rev\<close>.
\<close>

datatype 'n jsval = Undefined | Null | Bool bool | Num 'n | Str string

record 'n numops =
  num_truthy :: "'n \<Rightarrow> bool"            \<comment> \<open>ToBoolean: false exactly for +0, -0 and NaN\<close>
  num_toString :: "'n \<Rightarrow> string"        \<comment> \<open>Number toString, radix 10\<close>
  num_parseFloat :: "string \<Rightarrow> 'n"      \<comment> \<open>parseFloat on a string\<close>
  num_isNaN :: "'n \<Rightarrow> bool"
  num_add :: "'n \<Rightarrow> 'n \<Rightarrow> 'n"             \<comment> \<open>the \<^verbatim>\<open>+\<close> of two numbers\<close>
  num_lit :: "int \<Rightarrow> 'n"                \<comment> \<open>the integer literals of the source (0 and 1)\<close>

text \<open>A row in the order of \<^verbatim>\<open>Object.keys\<close>; \<^verbatim>\<open>row[k]\<close> is \<open>get row k\<close>.\<close>

type_synonym 'n row = "(string \<times> 'n jsval) list"

definition get :: "'n row \<Rightarrow> string \<Rightarrow> 'n jsval" where
  "get row k = (case map_of row k of None \<Rightarrow> Undefined | Some v \<Rightarrow> v)"

definition Object_keys :: "'n row \<Rightarrow> string list" where
  "Object_keys row = map fst row"

fun truthy :: "'n numops \<Rightarrow> 'n jsval \<Rightarrow> bool" where
  "truthy ops Undefined = False"
| "truthy ops Null = False"
| "truthy ops (Bool b) = b"
| "truthy ops (Num n) = num_truthy ops n"
| "truthy ops (Str s) = (s \<noteq> [])"

text \<open>\<^verbatim>\<open>a || b\<close>: the left operand when it is truthy, the right operand otherwise.\<close>

definition js_or :: "'n numops \<Rightarrow> 'n jsval \<Rightarrow> 'n jsval \<Rightarrow> 'n jsval" where
  "js_or ops a b = (if truthy ops a then a else b)"

fun toString :: "'n numops \<Rightarrow> 'n jsval \<Rightarrow> string" where
  "toString ops Undefined = ''undefined''"
| "toString ops Null = ''null''"
| "toString ops (Bool b) = (if b then ''true'' else ''false'')"
| "toString ops (Num n) = num_toString ops n"
| "toString ops (Str s) = s"

subsection \<open>Decimal rendering of an array index\<close>

definition digit_char :: "nat \<Rightarrow> char" where
  "digit_char d = ''0123456789'' ! d"

function nat_toString :: "nat \<Rightarrow> string" where
  "nat_toString n =
     (if n < 10 then [digit_char n] else nat_toString (n div 10) @ [digit_char (n mod 10)])"
  by pat_completeness auto
termination
  by (relation "measure id") auto

declare nat_toString.simps [simp del]

subsection \<open>parseInt\<close>

text \<open>
  \<^verbatim>\<open>parseInt(x)\<close> with no radix: \<^verbatim>\<open>ToString(x)\<close>, leading white space dropped, an
  optional sign, a \<^verbatim>\<open>0x\<close> prefix selecting radix 16, then the longest prefix of digits;
  \<^verbatim>\<open>NaN\<close> when that prefix is empty.  The result is kept as the mathematical integer
  (the program only asks whether it is truthy, 1 or 2, which rounding to a double
  never changes).
\<close>

datatype intnum = NaN | IntVal int

definition isStrWhiteSpaceChar :: "char \<Rightarrow> bool" where
  "isStrWhiteSpaceChar c =
     (c = CHR 0x09 \<or> c = CHR 0x0A \<or> c = CHR 0x0B \<or> c = CHR 0x0C \<or> c = CHR 0x0D \<or> c = CHR '' '')"

definition digitVal :: "char \<Rightarrow> nat option" where
  "digitVal c =
     (let n = (of_char c :: nat) in
      if 48 \<le> n \<and> n \<le> 57 then Some (n - 48)
      else if 97 \<le> n \<and> n \<le> 122 then Some (n - 87)
      else if 65 \<le> n \<and> n \<le> 90 then Some (n - 55)
      else None)"

definition isDigitOf :: "nat \<Rightarrow> char \<Rightarrow> bool" where
  "isDigitOf R c = (case digitVal c of None \<Rightarrow> False | Some d \<Rightarrow> d < R)"

definition digitsValue :: "nat \<Rightarrow> string \<Rightarrow> nat" where
  "digitsValue R Z = foldl (\<lambda>a c. a * R + (case digitVal c of None \<Rightarrow> 0 | Some d \<Rightarrow> d)) 0 Z"

definition parseInt_str :: "string \<Rightarrow> intnum" where
  "parseInt_str inputString =
     (let S = dropWhile isStrWhiteSpaceChar inputString;
          sign = (if take 1 S = ''-'' then - 1 else 1 :: int);
          S1 = (if take 1 S = ''+'' \<or> take 1 S = ''-'' then drop 1 S else S);
          hex = (take 2 S1 = ''0x'' \<or> take 2 S1 = ''0X'');
          R = (if hex then 16 else 10);
          S2 = (if hex then drop 2 S1 else S1);
          Z = takeWhile (isDigitOf R) S2
      in if Z = [] then NaN else IntVal (sign * int (digitsValue R Z)))"

definition parseInt :: "'n numops \<Rightarrow> 'n jsval \<Rightarrow> intnum" where
  "parseInt ops v = parseInt_str (toString ops v)"

definition parseFloat :: "'n numops \<Rightarrow> 'n jsval \<Rightarrow> 'n" where
  "parseFloat ops v = num_parseFloat ops (toString ops v)"

section \<open>Column aliases\<close>

text \<open>
  \<^verbatim>\<open>row.txId || row.id || row['0'] || row.node_id || row.transaction_id\<close>
  (\<^verbatim>\<open>||\<close> associates to the left).
\<close>

definition txId_of :: "'n numops \<Rightarrow> 'n row \<Rightarrow> 'n jsval" where
  "txId_of ops row =
     js_or ops (js_or ops (js_or ops (js_or ops (get row ''txId'') (get row ''id''))
       (get row ''0'')) (get row ''node_id'')) (get row ''transaction_id'')"

text \<open>\<^verbatim>\<open>row.class || row['1'] || row.label || row.classification\<close>\<close>

definition classification_of :: "'n numops \<Rightarrow> 'n row \<Rightarrow> 'n jsval" where
  "classification_of ops row =
     js_or ops (js_or ops (js_or ops (get row ''class'') (get row ''1''))
       (get row ''label'')) (get row ''classification'')"

text \<open>\<^verbatim>\<open>row.txId1 || row.source || row['0'] || row.from || row.node1\<close> and its sibling.\<close>

definition sourceId_of :: "'n numops \<Rightarrow> 'n row \<Rightarrow> 'n jsval" where
  "sourceId_of ops row =
     js_or ops (js_or ops (js_or ops (js_or ops (get row ''txId1'') (get row ''source''))
       (get row ''0'')) (get row ''from'')) (get row ''node1'')"

definition targetId_of :: "'n numops \<Rightarrow> 'n row \<Rightarrow> 'n jsval" where
  "targetId_of ops row =
     js_or ops (js_or ops (js_or ops (js_or ops (get row ''txId2'') (get row ''target''))
       (get row ''1'')) (get row ''to'')) (get row ''node2'')"

section \<open>The classification map\<close>

text \<open>
  \<^verbatim>\<open>const classMap = {}\<close> is an ordinary object: its own properties are the entries
  written by the loop, keyed by \<^verbatim>\<open>ToString(txId)\<close>.  A read of a name that is not an own
  property falls through to \<^verbatim>\<open>Object.prototype\<close>, whose members are objects (truthy,
  equal to no number); an assignment to \<^verbatim>\<open>__proto__\<close> with a number is ignored by the
  setter.
\<close>

type_synonym classMap = "string \<rightharpoonup> intnum"

definition Object_prototype_names :: "string list" where
  "Object_prototype_names =
     [''constructor'', ''__defineGetter__'', ''__defineSetter__'', ''hasOwnProperty'',
      ''__lookupGetter__'', ''__lookupSetter__'', ''isPrototypeOf'', ''propertyIsEnumerable'',
      ''toString'', ''valueOf'', ''__proto__'', ''toLocaleString'']"

datatype propval = PUndefined | PObject | PNum intnum

definition classMap_set :: "classMap \<Rightarrow> string \<Rightarrow> intnum \<Rightarrow> classMap" where
  "classMap_set m k v = (if k = ''__proto__'' then m else m(k \<mapsto> v))"

definition classMap_get :: "classMap \<Rightarrow> string \<Rightarrow> propval" where
  "classMap_get m k =
     (if k = ''__proto__'' then PObject
      else case m k of
        Some v \<Rightarrow> PNum v
      | None \<Rightarrow> if k \<in> set Object_prototype_names then PObject else PUndefined)"

text \<open>\<^verbatim>\<open>classMap[txId] || 3\<close>\<close>

definition or3 :: "propval \<Rightarrow> propval" where
  "or3 p = (case p of
       PUndefined \<Rightarrow> PNum (IntVal 3)
     | PObject \<Rightarrow> PObject
     | PNum NaN \<Rightarrow> PNum (IntVal 3)
     | PNum (IntVal i) \<Rightarrow> if i = 0 then PNum (IntVal 3) else PNum (IntVal i))"

definition classMap_step :: "'n numops \<Rightarrow> classMap \<Rightarrow> 'n row \<Rightarrow> classMap" where
  "classMap_step ops classMap row =
     (let txId = txId_of ops row;
          classification = classification_of ops row
      in if txId \<noteq> Undefined \<and> txId \<noteq> Null \<and> classification \<noteq> Undefined \<and> classification \<noteq> Null
         then classMap_set classMap (toString ops txId) (parseInt ops classification)
         else classMap)"

definition buildClassMap :: "'n numops \<Rightarrow> 'n row list \<Rightarrow> classMap" where
  "buildClassMap ops classes = foldl (classMap_step ops) Map.empty classes"

section \<open>Nodes, edges and the assembled graph\<close>

record 'n node =
  n_id :: string
  n_label :: string
  n_type :: string
  n_classification :: string
  n_suspicious :: string
  n_txId :: "'n jsval"
  n_featureSum :: 'n
  n_timestep :: "'n jsval"
  n_features :: "'n row"

record edge =
  e_id :: string
  e_source :: string
  e_target :: string
  e_amount :: nat
  e_type :: string

record stats =
  s_total :: nat
  s_illicit :: nat
  s_licit :: nat
  s_unknown :: nat
  s_edges :: nat

record 'n graph =
  nodes :: "'n node list"
  edges :: "edge list"
  statistics :: stats

text \<open>
  The keys kept by the \<^verbatim>\<open>filter\<close> in front of the feature sum, in
  \<^verbatim>\<open>src/data/EllipticDataLoader.js\<close> and in the revision of the same file that also
  reads the column \<^verbatim>\<open>Time step\<close>.
\<close>

definition isFeatureKey :: "string \<Rightarrow> bool" where
  "isFeatureKey key =
     (key \<noteq> ''txId'' \<and> key \<noteq> ''id'' \<and> key \<noteq> ''0'' \<and>
      key \<noteq> ''node_id'' \<and> key \<noteq> ''transaction_id'')"

definition isFeatureKey_rev :: "string \<Rightarrow> bool" where
  "isFeatureKey_rev key =
     (key \<noteq> ''txId'' \<and> key \<noteq> ''id'' \<and> key \<noteq> ''0'' \<and>
      key \<noteq> ''node_id'' \<and> key \<noteq> ''transaction_id'' \<and> key \<noteq> ''Time step'')"

text \<open>\<^verbatim>\<open>row.timestep || row.time_step || 1\<close>, and the revision's
  \<^verbatim>\<open>row['Time step'] || row.timestep || row.time_step || 1\<close>.\<close>

definition timestep_of :: "'n numops \<Rightarrow> 'n row \<Rightarrow> 'n jsval" where
  "timestep_of ops row =
     js_or ops (js_or ops (get row ''timestep'') (get row ''time_step'')) (Num (num_lit ops 1))"

definition timestep_of_rev :: "'n numops \<Rightarrow> 'n row \<Rightarrow> 'n jsval" where
  "timestep_of_rev ops row =
     js_or ops (js_or ops (js_or ops (get row ''Time step'') (get row ''timestep''))
       (get row ''time_step'')) (Num (num_lit ops 1))"

text \<open>
  \<^verbatim>\<open>features.reduce((sum, feature) => { const value = parseFloat(row[feature]);
  return sum + (isNaN(value) ? 0 : value); }, 0)\<close>
\<close>

definition sumFeatures :: "'n numops \<Rightarrow> 'n row \<Rightarrow> string list \<Rightarrow> 'n" where
  "sumFeatures ops row features =
     foldl (\<lambda>sum feature.
              let value = parseFloat ops (get row feature)
              in num_add ops sum (if num_isNaN ops value then num_lit ops 0 else value))
           (num_lit ops 0) features"

definition featureSum :: "'n numops \<Rightarrow> (string \<Rightarrow> bool) \<Rightarrow> 'n row \<Rightarrow> 'n" where
  "featureSum ops keep row = sumFeatures ops row (filter keep (Object_keys row))"

definition nodeType_of :: "propval \<Rightarrow> string" where
  "nodeType_of classification =
     (if classification = PNum (IntVal 1) then ''illicit''
      else if classification = PNum (IntVal 2) then ''licit''
      else ''unknown'')"

definition makeNode ::
  "'n numops \<Rightarrow> (string \<Rightarrow> bool) \<Rightarrow> ('n row \<Rightarrow> 'n jsval) \<Rightarrow> classMap \<Rightarrow> 'n row \<Rightarrow> 'n jsval \<Rightarrow> 'n node" where
  "makeNode ops keep ts classMap row txId =
     (let classification = or3 (classMap_get classMap (toString ops txId));
          nodeType = nodeType_of classification;
          suspicious = (classification = PNum (IntVal 1))
      in \<lparr> n_id = ''tx_'' @ toString ops txId,
           n_label = ''TX '' @ take 8 (toString ops txId),
           n_type = ''transaction'',
           n_classification = nodeType,
           n_suspicious = (if suspicious then ''true'' else ''false''),
           n_txId = txId,
           n_featureSum = featureSum ops keep row,
           n_timestep = ts row,
           n_features = row \<rparr>)"

text \<open>The \<^verbatim>\<open>forEach\<close> over the feature rows: a row without an identifier is skipped.\<close>

fun createNodes ::
  "'n numops \<Rightarrow> (string \<Rightarrow> bool) \<Rightarrow> ('n row \<Rightarrow> 'n jsval) \<Rightarrow> classMap \<Rightarrow> 'n row list \<Rightarrow> 'n node list" where
  "createNodes ops keep ts classMap [] = []"
| "createNodes ops keep ts classMap (row # rows) =
     (let txId = txId_of ops row
      in if txId = Undefined \<or> txId = Null
         then createNodes ops keep ts classMap rows
         else makeNode ops keep ts classMap row txId # createNodes ops keep ts classMap rows)"

text \<open>The \<^verbatim>\<open>forEach\<close> over the edge rows; \<open>index\<close> is the position in the edge list.\<close>

fun createEdges :: "'n numops \<Rightarrow> nat \<Rightarrow> 'n row list \<Rightarrow> edge list" where
  "createEdges ops index [] = []"
| "createEdges ops index (row # rows) =
     (let sourceId = sourceId_of ops row;
          targetId = targetId_of ops row
      in if sourceId \<noteq> Undefined \<and> sourceId \<noteq> Null \<and> targetId \<noteq> Undefined \<and> targetId \<noteq> Null
         then \<lparr> e_id = ''edge_'' @ nat_toString index,
                e_source = ''tx_'' @ toString ops sourceId,
                e_target = ''tx_'' @ toString ops targetId,
                e_amount = 1,
                e_type = ''transaction_flow'' \<rparr> # createEdges ops (Suc index) rows
         else createEdges ops (Suc index) rows)"

definition assemble ::
  "'n numops \<Rightarrow> (string \<Rightarrow> bool) \<Rightarrow> ('n row \<Rightarrow> 'n jsval) \<Rightarrow>
   'n row list \<Rightarrow> 'n row list \<Rightarrow> 'n row list \<Rightarrow> 'n graph" where
  "assemble ops keep ts classRows featureRows edgeRows =
     (let classMap = buildClassMap ops classRows;
          nodes = createNodes ops keep ts classMap featureRows;
          edges = createEdges ops 0 edgeRows;
          validNodeIds = set (map n_id nodes);
          validEdges = filter (\<lambda>e. e_source e \<in> validNodeIds \<and> e_target e \<in> validNodeIds) edges;
          illicitCount = length (filter (\<lambda>n. n_classification n = ''illicit'') nodes);
          licitCount = length (filter (\<lambda>n. n_classification n = ''licit'') nodes);
          unknownCount = length (filter (\<lambda>n. n_classification n = ''unknown'') nodes)
      in \<lparr> nodes = nodes,
           edges = validEdges,
           statistics = \<lparr> s_total = length nodes,
                          s_illicit = illicitCount,
                          s_licit = licitCount,
                          s_unknown = unknownCount,
                          s_edges = length validEdges \<rparr> \<rparr>)"

section \<open>The loader\<close>

text \<open>
  The fields of the class; the constructor sets the three tables to \<^verbatim>\<open>null\<close>.  Reading a
  table that is \<^verbatim>\<open>null\<close> raises a TypeError, which the enclosing \<^verbatim>\<open>try\<close> rethrows
  wrapped.
\<close>

record 'n loader =
  features :: "'n row list option"
  classes :: "'n row list option"
  edgelist :: "'n row list option"
  isLoaded :: bool

datatype error =
    NotLoaded                      \<comment> \<open>\<^verbatim>\<open>Dataset not loaded yet\<close>\<close>
  | TypeError                      \<comment> \<open>a method called on \<^verbatim>\<open>null\<close>\<close>
  | DataProcessingFailed error     \<comment> \<open>\<^verbatim>\<open>Data processing failed: ...\<close>\<close>
  | SampleCreationFailed error     \<comment> \<open>\<^verbatim>\<open>Sample creation failed: ...\<close>\<close>
  | NoDataFound string             \<comment> \<open>\<^verbatim>\<open>No data found in ${file.name}\<close>\<close>
  | ParserError string             \<comment> \<open>the parser's own error callback\<close>
  | FeaturesEmpty                  \<comment> \<open>\<^verbatim>\<open>Features file is empty or invalid\<close>\<close>
  | ClassesEmpty                   \<comment> \<open>\<^verbatim>\<open>Classes file is empty or invalid\<close>\<close>
  | EdgesEmpty                     \<comment> \<open>\<^verbatim>\<open>Edges file is empty or invalid\<close>\<close>

definition new_loader :: "'n loader" where
  "new_loader = \<lparr> features = None, classes = None, edgelist = None, isLoaded = False \<rparr>"

text \<open>
  A method returns its result (or the error it throws) together with the loader after
  the call.
\<close>

definition processData ::
  "'n numops \<Rightarrow> (string \<Rightarrow> bool) \<Rightarrow> ('n row \<Rightarrow> 'n jsval) \<Rightarrow> 'n loader \<Rightarrow> (error + 'n graph) \<times> 'n loader" where
  "processData ops keep ts this =
     (if \<not> isLoaded this then (Inl NotLoaded, this)
      else case classes this of
        None \<Rightarrow> (Inl (DataProcessingFailed TypeError), this)
      | Some cs \<Rightarrow>
          (case features this of
             None \<Rightarrow> (Inl (DataProcessingFailed TypeError), this)
           | Some fs \<Rightarrow>
               (case edgelist this of
                  None \<Rightarrow> (Inl (DataProcessingFailed TypeError), this)
                | Some es \<Rightarrow> (Inr (assemble ops keep ts cs fs es), this))))"

definition processDataForVisualization :: "'n numops \<Rightarrow> 'n loader \<Rightarrow> (error + 'n graph) \<times> 'n loader" where
  "processDataForVisualization ops this = processData ops isFeatureKey (timestep_of ops) this"

definition processDataForVisualization_rev :: "'n numops \<Rightarrow> 'n loader \<Rightarrow> (error + 'n graph) \<times> 'n loader" where
  "processDataForVisualization_rev ops this = processData ops isFeatureKey_rev (timestep_of_rev ops) this"

subsection \<open>Loading\<close>

text \<open>
  The CSV parser is an external library.  A file is its name together with what the parser
  delivers for it: the error callback, or the completion callback with the parsed rows.
\<close>

datatype 'n papa = PapaError string | PapaComplete "'n row list"

record 'n csvfile =
  file_name :: string
  file_parse :: "'n papa"

definition loadCSV :: "'n csvfile \<Rightarrow> error + 'n row list" where
  "loadCSV file =
     (case file_parse file of
        PapaError msg \<Rightarrow> Inl (ParserError msg)
      | PapaComplete data \<Rightarrow> if data = [] then Inl (NoDataFound (file_name file)) else Inr data)"

text \<open>
  \<^verbatim>\<open>Promise.all\<close> rejects with the rejection that settles first and otherwise resolves with
  all values in argument order.  \<open>order\<close> lists the positions of the promises in the order in
  which they settle.
\<close>

definition Promise_all :: "nat list \<Rightarrow> (error + 'a) list \<Rightarrow> error + 'a list" where
  "Promise_all order ps =
     (case filter (\<lambda>i. i < length ps \<and> isl (ps ! i)) (order @ [0..<length ps]) of
        i # _ \<Rightarrow> Inl (projl (ps ! i))
      | [] \<Rightarrow> Inr (map projr ps))"

definition loadFromFiles ::
  "'n numops \<Rightarrow> nat list \<Rightarrow> 'n csvfile \<Rightarrow> 'n csvfile \<Rightarrow> 'n csvfile \<Rightarrow> 'n loader
   \<Rightarrow> (error + 'n graph) \<times> 'n loader" where
  "loadFromFiles ops order featuresFile classesFile edgelistFile this =
     (case Promise_all order [loadCSV featuresFile, loadCSV classesFile, loadCSV edgelistFile] of
        Inl e \<Rightarrow> (Inl e, this)
      | Inr rs \<Rightarrow>
          (let features = rs ! 0; classes = rs ! 1; edges = rs ! 2
           in if features = [] then (Inl FeaturesEmpty, this)
              else if classes = [] then (Inl ClassesEmpty, this)
              else if edges = [] then (Inl EdgesEmpty, this)
              else processDataForVisualization ops
                     \<lparr> features = Some features, classes = Some classes,
                       edgelist = Some edges, isLoaded = True \<rparr>))"

subsection \<open>Products with the fractional constants of the sampler\<close>

text \<open>
  \<^verbatim>\<open>maxNodes\<close> is an integer; the constants \<^verbatim>\<open>0.1\<close>, \<^verbatim>\<open>0.4\<close>, ... are the doubles
  nearest to them, written \<open>m / 2 ^ s\<close>.  The product of an integer \<open>n\<close> (of magnitude up to
  \<open>2 ^ 53\<close>) with such a constant is the exact product rounded to 53 significant bits, ties
  to even; it is kept as a numerator over \<open>2 ^ s\<close>.
\<close>

function bits :: "nat \<Rightarrow> nat" where
  "bits n = (if n = 0 then 0 else Suc (bits (n div 2)))"
  by pat_completeness auto
termination
  by (relation "measure id") auto

declare bits.simps [simp del]

definition round53 :: "nat \<Rightarrow> nat" where
  "round53 p =
     (let b = bits p
      in if b \<le> 53 then p
         else let d = b - 53; q = p div 2 ^ d; r = p mod 2 ^ d;
                  up = (2 * r > 2 ^ d \<or> (2 * r = 2 ^ d \<and> odd q))
              in (if up then q + 1 else q) * 2 ^ d)"

type_synonym dyadic = "int \<times> nat"

definition times_const :: "int \<Rightarrow> nat \<times> nat \<Rightarrow> dyadic" where
  "times_const n c = (case c of (m, s) \<Rightarrow> (sgn n * int (round53 (nat \<bar>n\<bar> * m)), s))"

definition Math_floor :: "dyadic \<Rightarrow> int" where
  "Math_floor x = (case x of (a, s) \<Rightarrow> a div 2 ^ s)"

text \<open>\<^verbatim>\<open>k >= x\<close> for an integer \<open>k\<close>.\<close>

definition int_ge :: "int \<Rightarrow> dyadic \<Rightarrow> bool" where
  "int_ge k x = (case x of (a, s) \<Rightarrow> k * 2 ^ s \<ge> a)"

definition c_0_1 :: "nat \<times> nat" where "c_0_1 = (3602879701896397, 55)"
definition c_0_4 :: "nat \<times> nat" where "c_0_4 = (3602879701896397, 53)"
definition c_0_5 :: "nat \<times> nat" where "c_0_5 = (1, 1)"
definition c_0_15 :: "nat \<times> nat" where "c_0_15 = (5404319552844595, 55)"
definition c_0_35 :: "nat \<times> nat" where "c_0_35 = (3152519739159347, 53)"
definition c_0_2 :: "nat \<times> nat" where "c_0_2 = (3602879701896397, 54)"

text \<open>\<^verbatim>\<open>xs.slice(0, end)\<close>: a negative \<open>end\<close> counts from the end of the array.\<close>

definition slice0 :: "'a list \<Rightarrow> int \<Rightarrow> 'a list" where
  "slice0 xs end = (if end < 0 then take (nat (int (length xs) + end)) xs else take (nat end) xs)"

subsection \<open>Sampling\<close>

text \<open>The class of a feature row in the sampler: \<^verbatim>\<open>classMap[txId] || 3\<close>.\<close>

definition pushTx ::
  "propval \<Rightarrow> 'n row \<Rightarrow> 'n row list \<times> 'n row list \<times> 'n row list
   \<Rightarrow> 'n row list \<times> 'n row list \<times> 'n row list" where
  "pushTx classification row txs =
     (case txs of (illicitTxs, licitTxs, unknownTxs) \<Rightarrow>
        if classification = PNum (IntVal 1) then (illicitTxs @ [row], licitTxs, unknownTxs)
        else if classification = PNum (IntVal 2) then (illicitTxs, licitTxs @ [row], unknownTxs)
        else (illicitTxs, licitTxs, unknownTxs @ [row]))"

fun separateTxs ::
  "'n numops \<Rightarrow> classMap \<Rightarrow> 'n row list \<Rightarrow> 'n row list \<times> 'n row list \<times> 'n row list
   \<Rightarrow> 'n row list \<times> 'n row list \<times> 'n row list" where
  "separateTxs ops classMap [] txs = txs"
| "separateTxs ops classMap (row # rows) txs =
     (let txId = txId_of ops row
      in if txId = Undefined \<or> txId = Null then separateTxs ops classMap rows txs
         else separateTxs ops classMap rows
                (pushTx (or3 (classMap_get classMap (toString ops txId))) row txs))"

definition loadSampleSubset :: "'n numops \<Rightarrow> int \<Rightarrow> 'n loader \<Rightarrow> (error + 'n graph) \<times> 'n loader" where
  "loadSampleSubset ops maxNodes this =
     (if \<not> isLoaded this then (Inl NotLoaded, this)
      else case classes this of
        None \<Rightarrow> (Inl (SampleCreationFailed TypeError), this)
      | Some cs \<Rightarrow>
          (case features this of
             None \<Rightarrow> (Inl (SampleCreationFailed TypeError), this)
           | Some fs \<Rightarrow>
               (let classMap = buildClassMap ops cs;
                    txs = separateTxs ops classMap fs ([], [], []);
                    illicitTxs = fst txs; licitTxs = fst (snd txs); unknownTxs = snd (snd txs);
                    sampleSize = min maxNodes (int (length fs));
                    illicitSample = slice0 illicitTxs
                      (min (Math_floor (times_const sampleSize c_0_1)) (int (length illicitTxs)));
                    licitSample = slice0 licitTxs
                      (min (Math_floor (times_const sampleSize c_0_4)) (int (length licitTxs)));
                    unknownSample = slice0 unknownTxs
                      (min (Math_floor (times_const sampleSize c_0_5)) (int (length unknownTxs)));
                    sampleFeatures = illicitSample @ licitSample @ unknownSample;
                    originalFeatures = features this;
                    call = processDataForVisualization ops (this\<lparr>features := Some sampleFeatures\<rparr>)
                in case fst call of
                     Inl e \<Rightarrow> (Inl (SampleCreationFailed e), snd call)
                   | Inr result \<Rightarrow> (Inr result, (snd call)\<lparr>features := originalFeatures\<rparr>))))"

text \<open>
  The partition a feature row falls into: none when its identifier does not resolve,
  otherwise the node type of \<^verbatim>\<open>classMap[txId] || 3\<close>.
\<close>

definition txClass :: "'n numops \<Rightarrow> classMap \<Rightarrow> 'n row \<Rightarrow> string option" where
  "txClass ops classMap row =
     (let txId = txId_of ops row
      in if txId = Undefined \<or> txId = Null then None
         else Some (nodeType_of (or3 (classMap_get classMap (toString ops txId)))))"

text \<open>
  The rows of one class, in their original order, and the concatenation of a prefix of each
  class in the order illicit, licit, unknown.
\<close>

definition classPartition :: "'n numops \<Rightarrow> classMap \<Rightarrow> string \<Rightarrow> 'n row list \<Rightarrow> 'n row list" where
  "classPartition ops classMap c rows = filter (\<lambda>row. txClass ops classMap row = Some c) rows"

definition prefixSample ::
  "'n numops \<Rightarrow> classMap \<Rightarrow> int \<times> int \<times> int \<Rightarrow> 'n row list \<Rightarrow> 'n row list" where
  "prefixSample ops classMap lens rows =
     (case lens of (a, b, c) \<Rightarrow>
        take (nat a) (classPartition ops classMap ''illicit'' rows) @
        take (nat b) (classPartition ops classMap ''licit'' rows) @
        take (nat c) (classPartition ops classMap ''unknown'' rows))"

subsection \<open>Sampling in the revision with an examination ceiling\<close>

text \<open>
  The revision of the loader that reads \<^verbatim>\<open>Time step\<close> scans at most the first 10000
  feature rows and leaves the scan as soon as each partition holds enough rows:
  \<^verbatim>\<open>illicitTxs.length >= maxNodes * 0.2 && licitTxs.length >= maxNodes * 0.4 &&
  unknownTxs.length >= maxNodes * 0.4\<close>.  It samples with the proportions 0.15, 0.35, 0.5
  and the caps 50, 200, 250.
\<close>

definition enoughTxs :: "int \<Rightarrow> 'n row list \<times> 'n row list \<times> 'n row list \<Rightarrow> bool" where
  "enoughTxs maxNodes txs =
     (case txs of (illicitTxs, licitTxs, unknownTxs) \<Rightarrow>
        int_ge (int (length illicitTxs)) (times_const maxNodes c_0_2) \<and>
        int_ge (int (length licitTxs)) (times_const maxNodes c_0_4) \<and>
        int_ge (int (length unknownTxs)) (times_const maxNodes c_0_4))"

fun examineTxs ::
  "'n numops \<Rightarrow> classMap \<Rightarrow> int \<Rightarrow> 'n row list \<Rightarrow> 'n row list \<times> 'n row list \<times> 'n row list
   \<Rightarrow> 'n row list \<times> 'n row list \<times> 'n row list" where
  "examineTxs ops classMap maxNodes [] txs = txs"
| "examineTxs ops classMap maxNodes (row # rows) txs =
     (let txId = txId_of ops row
      in if txId = Undefined \<or> txId = Null then examineTxs ops classMap maxNodes rows txs
         else let txs' = pushTx (or3 (classMap_get classMap (toString ops txId))) row txs
              in if enoughTxs maxNodes txs' then txs'
                 else examineTxs ops classMap maxNodes rows txs')"

definition loadSampleSubset_rev :: "'n numops \<Rightarrow> int \<Rightarrow> 'n loader \<Rightarrow> (error + 'n graph) \<times> 'n loader" where
  "loadSampleSubset_rev ops maxNodes this =
     (if \<not> isLoaded this then (Inl NotLoaded, this)
      else case classes this of
        None \<Rightarrow> (Inl (SampleCreationFailed TypeError), this)
      | Some cs \<Rightarrow>
          (case features this of
             None \<Rightarrow> (Inl (SampleCreationFailed TypeError), this)
           | Some fs \<Rightarrow>
               (let classMap = buildClassMap ops cs;
                    maxRowsToExamine = min (length fs) 10000;
                    txs = examineTxs ops classMap maxNodes (take maxRowsToExamine fs) ([], [], []);
                    illicitTxs = fst txs; licitTxs = fst (snd txs); unknownTxs = snd (snd txs);
                    sampleSize = min maxNodes (int maxRowsToExamine);
                    illicitSample = slice0 illicitTxs
                      (min (min (Math_floor (times_const sampleSize c_0_15)) (int (length illicitTxs))) 50);
                    licitSample = slice0 licitTxs
                      (min (min (Math_floor (times_const sampleSize c_0_35)) (int (length licitTxs))) 200);
                    unknownSample = slice0 unknownTxs
                      (min (min (Math_floor (times_const sampleSize c_0_5)) (int (length unknownTxs))) 250);
                    sampleFeatures = illicitSample @ licitSample @ unknownSample;
                    originalFeatures = features this;
                    call = processDataForVisualization_rev ops (this\<lparr>features := Some sampleFeatures\<rparr>)
                in case fst call of
                     Inl e \<Rightarrow> (Inl (SampleCreationFailed e), snd call)
                   | Inr result \<Rightarrow> (Inr result, (snd call)\<lparr>features := originalFeatures\<rparr>))))"

subsection \<open>States the loader can be in\<close>

text \<open>
  The fields are written by the constructor and by the methods only: a state of the loader
  is the constructor's, or the state after a call of a method on such a state.
\<close>

inductive reachable :: "'n numops \<Rightarrow> 'n loader \<Rightarrow> bool" for ops :: "'n numops" where
  constructed: "reachable ops new_loader"
| loaded: "reachable ops this \<Longrightarrow>
     reachable ops (snd (loadFromFiles ops order featuresFile classesFile edgelistFile this))"
| processed: "reachable ops this \<Longrightarrow> reachable ops (snd (processDataForVisualization ops this))"
| sampled: "reachable ops this \<Longrightarrow> reachable ops (snd (loadSampleSubset ops maxNodes this))"

definition tablesPresent :: "'n loader \<Rightarrow> bool" where
  "tablesPresent this =
     (if isLoaded this
      then features this \<noteq> None \<and> classes this \<noteq> None \<and> edgelist this \<noteq> None
      else True)"

section \<open>Integer-valued numbers\<close>

text \<open>
  An instance of the number operations for concrete inputs: integer-valued numbers and
  \<^verbatim>\<open>NaN\<close>.  It agrees with JavaScript on integers of magnitude below \<open>2 ^ 53\<close> and on
  strings whose numeric prefix is a decimal integer (no fraction, no exponent).
\<close>

definition int_toString :: "int \<Rightarrow> string" where
  "int_toString i = (if i < 0 then ''-'' @ nat_toString (nat (- i)) else nat_toString (nat i))"

definition int_parseFloat :: "string \<Rightarrow> intnum" where
  "int_parseFloat inputString =
     (let S = dropWhile isStrWhiteSpaceChar inputString;
          sign = (if take 1 S = ''-'' then - 1 else 1 :: int);
          S1 = (if take 1 S = ''+'' \<or> take 1 S = ''-'' then drop 1 S else S);
          Z = takeWhile (isDigitOf 10) S1
      in if Z = [] then NaN else IntVal (sign * int (digitsValue 10 Z)))"

definition int_add :: "intnum \<Rightarrow> intnum \<Rightarrow> intnum" where
  "int_add a b = (case a of NaN \<Rightarrow> NaN | IntVal x \<Rightarrow> (case b of NaN \<Rightarrow> NaN | IntVal y \<Rightarrow> IntVal (x + y)))"

definition int_numops :: "intnum numops" where
  "int_numops =
     \<lparr> num_truthy = (\<lambda>n. n \<noteq> NaN \<and> n \<noteq> IntVal 0),
       num_toString = (\<lambda>n. case n of NaN \<Rightarrow> ''NaN'' | IntVal i \<Rightarrow> int_toString i),
       num_parseFloat = int_parseFloat,
       num_isNaN = (\<lambda>n. n = NaN),
       num_add = int_add,
       num_lit = IntVal \<rparr>"

section \<open>The specification's wording\<close>

definition idAliases :: "string list" where
  "idAliases = [''txId'', ''id'', ''0'', ''node_id'', ''transaction_id'']"

text \<open>Identifier resolution as specified: the first alias with a present, non-null value.\<close>

definition resolveIdentifierColumn_spec :: "'n row \<Rightarrow> 'n jsval" where
  "resolveIdentifierColumn_spec row =
     (case filter (\<lambda>v. v \<noteq> Undefined \<and> v \<noteq> Null) (map (get row) idAliases) of
        v # _ \<Rightarrow> v
      | [] \<Rightarrow> Null)"

text \<open>The index as specified: an entry is inserted only for the labels 1 and 2.\<close>

definition buildIndex_spec :: "'n numops \<Rightarrow> 'n row list \<Rightarrow> classMap" where
  "buildIndex_spec ops classRows =
     foldl (\<lambda>index row.
              let txId = txId_of ops row;
                  classification = classification_of ops row;
                  parsedLabel = parseInt ops classification
              in if txId \<noteq> Undefined \<and> txId \<noteq> Null \<and> classification \<noteq> Undefined \<and> classification \<noteq> Null
                    \<and> (parsedLabel = IntVal 1 \<or> parsedLabel = IntVal 2)
                 then index(toString ops txId \<mapsto> parsedLabel)
                 else index)
           Map.empty classRows"

text \<open>The feature sum as specified: identifier and timestep columns are left out.\<close>

definition timestepAliases :: "string list" where
  "timestepAliases = [''Time step'', ''timestep'', ''time_step'']"

definition featureSum_spec :: "'n numops \<Rightarrow> 'n row \<Rightarrow> 'n" where
  "featureSum_spec ops row =
     sumFeatures ops row
       (filter (\<lambda>key. key \<notin> set idAliases \<and> key \<notin> set timestepAliases) (Object_keys row))"

text \<open>The size of a class sample as specified:
  \<open>min(floor(targetMax * proportion), partitionSize, hardCap)\<close>.\<close>

definition sampleCount_spec :: "int \<Rightarrow> nat \<times> nat \<Rightarrow> nat \<Rightarrow> int option \<Rightarrow> int" where
  "sampleCount_spec targetMax proportion partitionSize hardCap =
     (let n = min (Math_floor (times_const targetMax proportion)) (int partitionSize)
      in case hardCap of None \<Rightarrow> n | Some cap \<Rightarrow> min n cap)"

section \<open>Fixtures\<close>

definition N :: "int \<Rightarrow> intnum jsval" where
  "N i = Num (IntVal i)"

definition ex_features :: "intnum row list" where
  "ex_features =
     [[(''txId'', N 1), (''timestep'', N 5), (''f1'', N 2)],
      [(''node_id'', N 2), (''f1'', Str ''x''), (''f2'', Str ''40'')],
      [(''f1'', N 8)],
      [(''txId'', N 3), (''Time step'', N 4), (''f1'', N 6)],
      [(''txId'', N 4)]]"

definition ex_classes :: "intnum row list" where
  "ex_classes =
     [[(''txId'', N 1), (''class'', N 1)],
      [(''txId'', N 2), (''class'', Str ''2'')],
      [(''txId'', N 3), (''class'', Str ''3'')],
      [(''txId'', N 9), (''class'', Str ''unknown'')]]"

definition ex_edges :: "intnum row list" where
  "ex_edges =
     [[(''txId1'', N 1), (''txId2'', N 2)],
      [(''txId1'', N 2), (''txId2'', N 7)],
      [(''source'', N 3), (''target'', N 1)],
      [(''txId1'', N 4)]]"

definition ex_loader :: "intnum loader" where
  "ex_loader =
     \<lparr> features = Some ex_features, classes = Some ex_classes,
       edgelist = Some ex_edges, isLoaded = True \<rparr>"

definition ex_file :: "string \<Rightarrow> intnum row list \<Rightarrow> intnum csvfile" where
  "ex_file name rows = \<lparr> file_name = name, file_parse = PapaComplete rows \<rparr>"

text \<open>One transaction with a \<^verbatim>\<open>timestep\<close> column and one feature column.\<close>

definition ts_loader :: "intnum loader" where
  "ts_loader =
     \<lparr> features = Some [[(''txId'', N 1), (''timestep'', N 5), (''f1'', N 2)]],
       classes = Some [[(''txId'', N 1), (''class'', N 2)]],
       edgelist = Some [[(''txId1'', N 1), (''txId2'', N 1)]],
       isLoaded = True \<rparr>"

text \<open>Four unlabelled transactions and a label for a transaction that is not among them.\<close>

definition four_features :: "intnum row list" where
  "four_features = [[(''txId'', N 1)], [(''txId'', N 2)], [(''txId'', N 3)], [(''txId'', N 4)]]"

definition four_classes :: "intnum row list" where
  "four_classes = [[(''txId'', N 9), (''class'', N 1)]]"

definition four_edges :: "intnum row list" where
  "four_edges = [[(''txId1'', N 1), (''txId2'', N 2)]]"

definition four_unknown :: "intnum loader" where
  "four_unknown =
     \<lparr> features = Some four_features, classes = Some four_classes,
       edgelist = Some four_edges, isLoaded = True \<rparr>"


section \<open>Basic facts about assembly\<close>

lemma processData_loaded:
  "isLoaded this \<Longrightarrow> classes this = Some cs \<Longrightarrow> features this = Some fs \<Longrightarrow> edgelist this = Some es
   \<Longrightarrow> processData ops keep ts this = (Inr (assemble ops keep ts cs fs es), this)"
  by (simp add: processData_def)

lemma processData_state: "snd (processData ops keep ts this) = this"
  by (simp add: processData_def split: option.splits)

lemma nodes_assemble:
  "nodes (assemble ops keep ts cs fs es) = createNodes ops keep ts (buildClassMap ops cs) fs"
  by (simp add: assemble_def Let_def)

lemma edges_assemble:
  "edges (assemble ops keep ts cs fs es) =
     filter (\<lambda>e. e_source e \<in> n_id ` set (createNodes ops keep ts (buildClassMap ops cs) fs) \<and>
                  e_target e \<in> n_id ` set (createNodes ops keep ts (buildClassMap ops cs) fs))
       (createEdges ops 0 es)"
  by (simp add: assemble_def Let_def)

lemma statistics_assemble:
  "statistics (assemble ops keep ts cs fs es) =
     \<lparr> s_total = length (nodes (assemble ops keep ts cs fs es)),
       s_illicit = length (filter (\<lambda>n. n_classification n = ''illicit'') (nodes (assemble ops keep ts cs fs es))),
       s_licit = length (filter (\<lambda>n. n_classification n = ''licit'') (nodes (assemble ops keep ts cs fs es))),
       s_unknown = length (filter (\<lambda>n. n_classification n = ''unknown'') (nodes (assemble ops keep ts cs fs es))),
       s_edges = length (edges (assemble ops keep ts cs fs es)) \<rparr>"
  by (simp add: assemble_def Let_def)

lemma ex_loader_fields:
  "isLoaded ex_loader" "classes ex_loader = Some ex_classes"
  "features ex_loader = Some ex_features" "edgelist ex_loader = Some ex_edges"
  by (simp_all add: ex_loader_def)

lemma classification_makeNode:
  "n_classification (makeNode ops keep ts cm row txId) =
     nodeType_of (or3 (classMap_get cm (toString ops txId)))"
  by (simp add: makeNode_def Let_def)

lemma nodeType_of_cases:
  "nodeType_of c = ''illicit'' \<or> nodeType_of c = ''licit'' \<or> nodeType_of c = ''unknown''"
  by (simp add: nodeType_of_def)

lemma createNodes_counts:
  "length (filter (\<lambda>n. n_classification n = ''illicit'') (createNodes ops keep ts cm fs)) +
   length (filter (\<lambda>n. n_classification n = ''licit'') (createNodes ops keep ts cm fs)) +
   length (filter (\<lambda>n. n_classification n = ''unknown'') (createNodes ops keep ts cm fs)) =
   length (createNodes ops keep ts cm fs)"
proof (induction fs)
  case Nil
  then show ?case by simp
next
  case (Cons row rows)
  show ?case
  proof (cases "txId_of ops row = Undefined \<or> txId_of ops row = Null")
    case True
    with Cons show ?thesis by (simp add: Let_def)
  next
    case False
    with Cons nodeType_of_cases [of "or3 (classMap_get cm (toString ops (txId_of ops row)))"]
    show ?thesis
      by (auto simp add: Let_def classification_makeNode)
  qed
qed

section \<open>No dangling edges\<close>

text \<open>
  C1.  For every loaded state, whatever the feature, class and edge rows are,
  \<^verbatim>\<open>processDataForVisualization\<close> returns a graph in which the source and the target of
  every edge are ids of nodes of that graph, and \<^verbatim>\<open>statistics.edges\<close> is the number of
  the edges kept.
\<close>

theorem no_dangling_edges:
  assumes "isLoaded this" "classes this = Some cs" "features this = Some fs" "edgelist this = Some es"
  shows "\<exists>g. fst (processDataForVisualization ops this) = Inr g \<and>
             (\<forall>e \<in> set (edges g). e_source e \<in> n_id ` set (nodes g) \<and> e_target e \<in> n_id ` set (nodes g)) \<and>
             s_edges (statistics g) = length (edges g)"
proof -
  let ?g = "assemble ops isFeatureKey (timestep_of ops) cs fs es"
  have "fst (processDataForVisualization ops this) = Inr ?g"
    using assms by (simp add: processDataForVisualization_def processData_loaded)
  moreover have "\<forall>e \<in> set (edges ?g). e_source e \<in> n_id ` set (nodes ?g) \<and> e_target e \<in> n_id ` set (nodes ?g)"
    by (simp add: edges_assemble nodes_assemble)
  moreover have "s_edges (statistics ?g) = length (edges ?g)"
    by (simp add: statistics_assemble)
  ultimately show ?thesis by blast
qed

theorem no_dangling_edges_witness:
  "\<exists>g. fst (processDataForVisualization int_numops ex_loader) = Inr g \<and>
       (\<forall>e \<in> set (edges g). e_source e \<in> n_id ` set (nodes g) \<and> e_target e \<in> n_id ` set (nodes g)) \<and>
       s_edges (statistics g) = length (edges g) \<and>
       map e_id (edges g) = [''edge_0'', ''edge_2'']"
proof -
  from no_dangling_edges [OF ex_loader_fields, of int_numops]
  obtain g where g: "fst (processDataForVisualization int_numops ex_loader) = Inr g"
    and valid: "\<forall>e \<in> set (edges g). e_source e \<in> n_id ` set (nodes g) \<and> e_target e \<in> n_id ` set (nodes g)"
    and count: "s_edges (statistics g) = length (edges g)"
    by blast
  have "map e_id (edges (assemble int_numops isFeatureKey (timestep_of int_numops)
          ex_classes ex_features ex_edges)) = [''edge_0'', ''edge_2'']"
    by code_simp
  with g have "map e_id (edges g) = [''edge_0'', ''edge_2'']"
    by (simp add: processDataForVisualization_def processData_loaded [OF ex_loader_fields])
  with g valid count show ?thesis by (intro exI [of _ g]) simp
qed

section \<open>Statistics\<close>

text \<open>
  C8.  For every graph returned by \<^verbatim>\<open>processDataForVisualization\<close>,
  \<^verbatim>\<open>statistics.total\<close> is the number of nodes, and the illicit, licit and unknown counts
  add up to \<^verbatim>\<open>statistics.total\<close>.
\<close>

theorem statistics_sum:
  assumes "isLoaded this" "classes this = Some cs" "features this = Some fs" "edgelist this = Some es"
  shows "\<exists>g. fst (processDataForVisualization ops this) = Inr g \<and>
             s_total (statistics g) = length (nodes g) \<and>
             s_illicit (statistics g) + s_licit (statistics g) + s_unknown (statistics g)
               = s_total (statistics g)"
proof -
  let ?g = "assemble ops isFeatureKey (timestep_of ops) cs fs es"
  have "fst (processDataForVisualization ops this) = Inr ?g"
    using assms by (simp add: processDataForVisualization_def processData_loaded)
  moreover have "s_total (statistics ?g) = length (nodes ?g)"
    by (simp add: statistics_assemble)
  moreover have "s_illicit (statistics ?g) + s_licit (statistics ?g) + s_unknown (statistics ?g)
                   = s_total (statistics ?g)"
    by (simp add: statistics_assemble nodes_assemble createNodes_counts)
  ultimately show ?thesis by blast
qed

theorem statistics_sum_witness:
  "\<exists>g. fst (processDataForVisualization int_numops ex_loader) = Inr g \<and>
       s_total (statistics g) = length (nodes g) \<and>
       s_illicit (statistics g) + s_licit (statistics g) + s_unknown (statistics g)
         = s_total (statistics g) \<and>
       statistics g = \<lparr> s_total = 4, s_illicit = 1, s_licit = 1, s_unknown = 2, s_edges = 2 \<rparr>"
proof -
  from statistics_sum [OF ex_loader_fields, of int_numops]
  obtain g where g: "fst (processDataForVisualization int_numops ex_loader) = Inr g"
    and total: "s_total (statistics g) = length (nodes g)"
    and sum: "s_illicit (statistics g) + s_licit (statistics g) + s_unknown (statistics g)
                = s_total (statistics g)"
    by blast
  have "statistics (assemble int_numops isFeatureKey (timestep_of int_numops)
          ex_classes ex_features ex_edges)
        = \<lparr> s_total = 4, s_illicit = 1, s_licit = 1, s_unknown = 2, s_edges = 2 \<rparr>"
    by code_simp
  with g have "statistics g = \<lparr> s_total = 4, s_illicit = 1, s_licit = 1, s_unknown = 2, s_edges = 2 \<rparr>"
    by (simp add: processDataForVisualization_def processData_loaded [OF ex_loader_fields])
  with g total sum show ?thesis by blast
qed

section \<open>The unknown default\<close>

lemma unknown_without_entry:
  "cm k = None \<Longrightarrow> nodeType_of (or3 (classMap_get cm k)) = ''unknown''"
  by (simp add: classMap_get_def or3_def nodeType_of_def)

lemma makeNode_fields:
  "n_txId (makeNode ops keep ts cm row txId) = txId"
  "n_features (makeNode ops keep ts cm row txId) = row"
  "n_id (makeNode ops keep ts cm row txId) = ''tx_'' @ toString ops txId"
  "n_featureSum (makeNode ops keep ts cm row txId) = featureSum ops keep row"
  "n_timestep (makeNode ops keep ts cm row txId) = ts row"
  by (simp_all add: makeNode_def Let_def)

lemma createNodes_eq:
  "createNodes ops keep ts cm fs =
     map (\<lambda>row. makeNode ops keep ts cm row (txId_of ops row))
       (filter (\<lambda>row. txId_of ops row \<noteq> Undefined \<and> txId_of ops row \<noteq> Null) fs)"
  by (induction fs) (simp_all add: Let_def)

text \<open>
  C3.  In every loaded state the call returns a graph (no error), and a feature row whose
  resolved transaction id has no entry in the classification map yields a node with
  classification \<^verbatim>\<open>unknown\<close>; conversely every node whose id has no entry is
  \<^verbatim>\<open>unknown\<close> and not suspicious.
\<close>

theorem unknown_default:
  assumes "isLoaded this" "classes this = Some cs" "features this = Some fs" "edgelist this = Some es"
  shows "\<exists>g. fst (processDataForVisualization ops this) = Inr g \<and>
             (\<forall>row \<in> set fs.
                 txId_of ops row \<noteq> Undefined \<and> txId_of ops row \<noteq> Null \<and>
                 buildClassMap ops cs (toString ops (txId_of ops row)) = None \<longrightarrow>
                 (\<exists>n \<in> set (nodes g). n_features n = row \<and> n_txId n = txId_of ops row \<and>
                                      n_classification n = ''unknown'')) \<and>
             (\<forall>n \<in> set (nodes g).
                 buildClassMap ops cs (toString ops (n_txId n)) = None \<longrightarrow>
                 n_classification n = ''unknown'' \<and> n_suspicious n = ''false'')"
proof -
  let ?cm = "buildClassMap ops cs"
  let ?mk = "\<lambda>row. makeNode ops isFeatureKey (timestep_of ops) ?cm row (txId_of ops row)"
  let ?g = "assemble ops isFeatureKey (timestep_of ops) cs fs es"
  have g: "fst (processDataForVisualization ops this) = Inr ?g"
    using assms by (simp add: processDataForVisualization_def processData_loaded)
  have nodes: "nodes ?g = map ?mk (filter (\<lambda>row. txId_of ops row \<noteq> Undefined \<and> txId_of ops row \<noteq> Null) fs)"
    by (simp add: nodes_assemble createNodes_eq)
  have rows: "\<exists>n \<in> set (nodes ?g). n_features n = row \<and> n_txId n = txId_of ops row \<and>
                 n_classification n = ''unknown''"
    if "row \<in> set fs" "txId_of ops row \<noteq> Undefined" "txId_of ops row \<noteq> Null"
       "?cm (toString ops (txId_of ops row)) = None" for row
  proof -
    have "?mk row \<in> set (nodes ?g)" using that by (simp add: nodes)
    moreover have "n_classification (?mk row) = ''unknown''"
      using that(4) by (simp add: classification_makeNode unknown_without_entry)
    ultimately show ?thesis by (intro bexI [of _ "?mk row"]) (simp_all add: makeNode_fields)
  qed
  have all: "n_classification n = ''unknown'' \<and> n_suspicious n = ''false''"
    if "n \<in> set (nodes ?g)" "?cm (toString ops (n_txId n)) = None" for n
  proof -
    from that(1) obtain row where n: "n = ?mk row" by (auto simp add: nodes)
    with that(2) have none: "?cm (toString ops (txId_of ops row)) = None"
      by (simp add: makeNode_fields)
    then have "or3 (classMap_get ?cm (toString ops (txId_of ops row))) \<noteq> PNum (IntVal 1)"
      by (simp add: classMap_get_def or3_def)
    with none n show ?thesis
      by (simp add: makeNode_def Let_def unknown_without_entry)
  qed
  from g rows all show ?thesis by (intro exI [of _ ?g]) blast
qed

theorem unknown_default_witness:
  "\<exists>g. fst (processDataForVisualization int_numops ex_loader) = Inr g \<and>
       (\<exists>n \<in> set (nodes g). n_txId n = N 4 \<and> n_classification n = ''unknown'')"
proof -
  let ?row = "[(''txId'', N 4)] :: intnum row"
  have row: "?row \<in> set ex_features" by (simp add: ex_features_def)
  have txId: "txId_of int_numops ?row = N 4" by code_simp
  have res: "txId_of int_numops ?row \<noteq> Undefined \<and> txId_of int_numops ?row \<noteq> Null"
    using txId by (simp add: N_def)
  have none: "buildClassMap int_numops ex_classes (toString int_numops (txId_of int_numops ?row)) = None"
    by code_simp
  from unknown_default [OF ex_loader_fields, of int_numops]
  obtain g where g: "fst (processDataForVisualization int_numops ex_loader) = Inr g"
    and rows: "\<forall>row \<in> set ex_features.
                 txId_of int_numops row \<noteq> Undefined \<and> txId_of int_numops row \<noteq> Null \<and>
                 buildClassMap int_numops ex_classes (toString int_numops (txId_of int_numops row)) = None \<longrightarrow>
                 (\<exists>n \<in> set (nodes g). n_features n = row \<and> n_txId n = txId_of int_numops row \<and>
                                      n_classification n = ''unknown'')"
    by blast
  from bspec [OF rows row] res none
  obtain n where "n \<in> set (nodes g)" "n_txId n = txId_of int_numops ?row"
    "n_classification n = ''unknown''"
    by fast
  with g txId show ?thesis by (intro exI [of _ g] conjI bexI [of _ n]) simp_all
qed

section \<open>Effects on the loader\<close>

lemma processDataForVisualization_state:
  "snd (processDataForVisualization ops this) = this"
  by (simp add: processDataForVisualization_def processData_state)

lemma loadSampleSubset_frame:
  "tablesPresent this \<Longrightarrow> snd (loadSampleSubset ops maxNodes this) = this"
  by (auto simp add: loadSampleSubset_def tablesPresent_def Let_def processDataForVisualization_def
        processData_def split: option.splits sum.splits)

lemma tablesPresent_loadFromFiles:
  "tablesPresent this \<Longrightarrow>
   tablesPresent (snd (loadFromFiles ops order featuresFile classesFile edgelistFile this))"
  by (auto simp add: loadFromFiles_def Let_def processDataForVisualization_state tablesPresent_def
        split: sum.splits)

lemma reachable_tablesPresent: "reachable ops this \<Longrightarrow> tablesPresent this"
proof (induction rule: reachable.induct)
  case constructed
  show ?case by (simp add: tablesPresent_def new_loader_def)
next
  case (loaded this order featuresFile classesFile edgelistFile)
  from loaded.IH show ?case by (rule tablesPresent_loadFromFiles)
next
  case (processed this)
  then show ?case by (simp add: processDataForVisualization_state)
next
  case (sampled this maxNodes)
  then show ?case by (simp add: loadSampleSubset_frame)
qed

text \<open>
  In every state that the constructor and the methods produce, \<^verbatim>\<open>loadSampleSubset\<close>
  leaves the loader as it found it.  In any state at all it leaves \<^verbatim>\<open>classes\<close>,
  \<^verbatim>\<open>edgelist\<close> and \<^verbatim>\<open>isLoaded\<close> alone, and \<^verbatim>\<open>features\<close> as well whenever it returns a
  graph.
\<close>

lemma sampling_restores_reachable:
  assumes "reachable ops this"
  shows "snd (loadSampleSubset ops maxNodes this) = this"
  using assms by (simp add: loadSampleSubset_frame reachable_tablesPresent)

lemma sampling_other_fields:
  "classes (snd (loadSampleSubset ops maxNodes this)) = classes this \<and>
   edgelist (snd (loadSampleSubset ops maxNodes this)) = edgelist this \<and>
   isLoaded (snd (loadSampleSubset ops maxNodes this)) = isLoaded this"
  by (auto simp add: loadSampleSubset_def Let_def processDataForVisualization_state
        split: option.splits sum.splits)

lemma sampling_restores_on_success:
  "fst (loadSampleSubset ops maxNodes this) = Inr g \<Longrightarrow> snd (loadSampleSubset ops maxNodes this) = this"
  by (auto simp add: loadSampleSubset_def Let_def processDataForVisualization_state
        split: option.splits sum.splits if_splits)

lemma reachable_ex_loader: "reachable int_numops ex_loader"
proof -
  have "snd (loadFromFiles int_numops [] (ex_file ''features.csv'' ex_features)
          (ex_file ''classes.csv'' ex_classes) (ex_file ''edges.csv'' ex_edges) new_loader) = ex_loader"
    by (simp add: loadFromFiles_def Promise_all_def loadCSV_def ex_file_def ex_features_def
          ex_classes_def ex_edges_def Let_def processDataForVisualization_state ex_loader_def)
  with reachable.loaded [OF reachable.constructed, of int_numops "[]" "ex_file ''features.csv'' ex_features"
      "ex_file ''classes.csv'' ex_classes" "ex_file ''edges.csv'' ex_edges"]
  show ?thesis by simp
qed

text \<open>
  C2.  \<^verbatim>\<open>processDataForVisualization\<close> does not change the loader, so a second call
  returns the same result as the first (same nodes, edges and statistics, in the same
  order); a second call of \<^verbatim>\<open>loadSampleSubset\<close> with the same \<^verbatim>\<open>maxNodes\<close>, run on
  the loader the first call left behind, returns the same result as the first.
\<close>

theorem deterministic:
  "snd (processDataForVisualization ops this) = this \<and>
   fst (processDataForVisualization ops (snd (processDataForVisualization ops this)))
     = fst (processDataForVisualization ops this) \<and>
   fst (loadSampleSubset ops maxNodes (snd (loadSampleSubset ops maxNodes this)))
     = fst (loadSampleSubset ops maxNodes this)"
proof -
  have "fst (loadSampleSubset ops maxNodes (snd (loadSampleSubset ops maxNodes this)))
          = fst (loadSampleSubset ops maxNodes this)"
  proof (cases "tablesPresent this")
    case True
    then show ?thesis by (simp add: loadSampleSubset_frame)
  next
    case False
    then show ?thesis
      by (auto simp add: loadSampleSubset_def tablesPresent_def Let_def processDataForVisualization_def
        processData_def split: option.splits sum.splits if_splits)
  qed
  then show ?thesis by (simp add: processDataForVisualization_state)
qed


theorem deterministic_witness:
  "fst (loadSampleSubset int_numops 4 (snd (loadSampleSubset int_numops 4 ex_loader)))
     = fst (loadSampleSubset int_numops 4 ex_loader)"
  using deterministic [of int_numops ex_loader 4] by simp

section \<open>Loading fails on an empty table\<close>









section \<open>Identifier resolution\<close>

lemma txId_of_first_truthy:
  "txId_of ops row =
     (case filter (truthy ops) (map (get row) idAliases) of
        v # _ \<Rightarrow> v
      | [] \<Rightarrow> get row ''transaction_id'')"
  by (simp add: txId_of_def js_or_def idAliases_def)

lemma createNodes_single:
  "createNodes ops keep ts cm [row] =
     (if txId_of ops row = Undefined \<or> txId_of ops row = Null then []
      else [makeNode ops keep ts cm row (txId_of ops row)])"
  by (simp add: Let_def)

text \<open>
  C6, as amended.  Identifier resolution tries the aliases \<^verbatim>\<open>txId\<close>, \<^verbatim>\<open>id\<close>, \<^verbatim>\<open>0\<close>,
  \<^verbatim>\<open>node_id\<close>, \<^verbatim>\<open>transaction_id\<close> in this order and returns the first value that is
  truthy; when none is, the result is the value of \<^verbatim>\<open>transaction_id\<close> (\<^verbatim>\<open>undefined\<close> when
  the column is absent).  The row is skipped exactly when the result is \<^verbatim>\<open>undefined\<close> or
  \<^verbatim>\<open>null\<close>.  A features row in which \<^verbatim>\<open>txId\<close> (and \<^verbatim>\<open>id\<close> and \<^verbatim>\<open>0\<close>) is absent
  or falsy and \<^verbatim>\<open>node_id\<close> is truthy is identified by \<^verbatim>\<open>node_id\<close> and produces a node.
\<close>

theorem resolution_first_truthy:
  "txId_of ops row =
     (case filter (truthy ops) (map (get row) idAliases) of
        v # _ \<Rightarrow> v
      | [] \<Rightarrow> get row ''transaction_id'') \<and>
   createNodes ops keep ts cm [row] =
     (if txId_of ops row = Undefined \<or> txId_of ops row = Null then []
      else [makeNode ops keep ts cm row (txId_of ops row)]) \<and>
   (\<not> truthy ops (get row ''txId'') \<and> \<not> truthy ops (get row ''id'') \<and>
    \<not> truthy ops (get row ''0'') \<and> truthy ops (get row ''node_id'') \<longrightarrow>
      txId_of ops row = get row ''node_id'' \<and>
      createNodes ops keep ts cm [row] = [makeNode ops keep ts cm row (get row ''node_id'')])"
proof (intro conjI impI)
  show "txId_of ops row =
     (case filter (truthy ops) (map (get row) idAliases) of
        v # _ \<Rightarrow> v
      | [] \<Rightarrow> get row ''transaction_id'')"
    by (rule txId_of_first_truthy)
  show "createNodes ops keep ts cm [row] =
     (if txId_of ops row = Undefined \<or> txId_of ops row = Null then []
      else [makeNode ops keep ts cm row (txId_of ops row)])"
    by (rule createNodes_single)
next
  assume a: "\<not> truthy ops (get row ''txId'') \<and> \<not> truthy ops (get row ''id'') \<and>
    \<not> truthy ops (get row ''0'') \<and> truthy ops (get row ''node_id'')"
  then show eq: "txId_of ops row = get row ''node_id''"
    by (simp add: txId_of_def js_or_def)
  from a have "get row ''node_id'' \<noteq> Undefined \<and> get row ''node_id'' \<noteq> Null"
    by auto
  with eq show "createNodes ops keep ts cm [row] = [makeNode ops keep ts cm row (get row ''node_id'')]"
    by (simp add: Let_def)
qed

theorem resolution_first_truthy_witness:
  "txId_of int_numops [(''txId'', N 0), (''node_id'', N 2), (''f1'', Str ''x'')] = N 2 \<and>
   map n_id (createNodes int_numops isFeatureKey (timestep_of int_numops) Map.empty
            [[(''txId'', N 0), (''node_id'', N 2), (''f1'', Str ''x'')]]) = [''tx_2'']"
proof -
  let ?row = "[(''txId'', N 0), (''node_id'', N 2), (''f1'', Str ''x'')] :: intnum row"
  have pre: "\<not> truthy int_numops (get ?row ''txId'') \<and> \<not> truthy int_numops (get ?row ''id'') \<and>
    \<not> truthy int_numops (get ?row ''0'') \<and> truthy int_numops (get ?row ''node_id'')"
    by (simp add: get_def N_def int_numops_def)
  have v: "get ?row ''node_id'' = N 2" by (simp add: get_def)
  have id: "n_id (makeNode int_numops isFeatureKey (timestep_of int_numops) Map.empty ?row (N 2)) = ''tx_2''"
    by code_simp
  note t = resolution_first_truthy [of int_numops ?row isFeatureKey "timestep_of int_numops" Map.empty,
      THEN conjunct2, THEN conjunct2, rule_format, OF pre]
  from t [THEN conjunct1] v have r: "txId_of int_numops ?row = N 2"
    by (simp only:)
  from t [THEN conjunct2] v
  have "createNodes int_numops isFeatureKey (timestep_of int_numops) Map.empty [?row]
          = [makeNode int_numops isFeatureKey (timestep_of int_numops) Map.empty ?row (N 2)]"
    by (simp only:)
  with id have "map n_id (createNodes int_numops isFeatureKey (timestep_of int_numops) Map.empty [?row])
          = [''tx_2'']"
    by (simp only: list.map)
  with r show ?thesis by (rule conjI)
qed

text \<open>
  C6 as stated fails on a falsy identifier: with \<^verbatim>\<open>txId\<close> equal to the number 0 and
  \<^verbatim>\<open>id\<close> equal to 5, the first present, non-null value is 0 but the code resolves 5; a row
  whose only identifier is \<^verbatim>\<open>node_id = 0\<close> produces no node.
\<close>

theorem resolution_counterexample:
  "resolveIdentifierColumn_spec [(''txId'', N 0), (''id'', N 5)] = N 0 \<and>
   txId_of int_numops [(''txId'', N 0), (''id'', N 5)] = N 5 \<and>
   resolveIdentifierColumn_spec [(''node_id'', N 0)] = N 0 \<and>
   txId_of int_numops [(''node_id'', N 0)] = Undefined \<and>
   createNodes int_numops isFeatureKey (timestep_of int_numops) Map.empty [[(''node_id'', N 0)]] = []"
  by (simp add: resolveIdentifierColumn_spec_def idAliases_def txId_of_def js_or_def get_def N_def
        int_numops_def)

section \<open>The classification index\<close>

lemma buildClassMap_snoc:
  "buildClassMap ops (rows @ [row]) = classMap_step ops (buildClassMap ops rows) row"
  by (simp add: buildClassMap_def)

lemma buildClassMap_last_write:
  "buildClassMap ops classRows k =
     (if k = ''__proto__'' then None
      else case filter (\<lambda>row. txId_of ops row \<noteq> Undefined \<and> txId_of ops row \<noteq> Null \<and>
                              classification_of ops row \<noteq> Undefined \<and> classification_of ops row \<noteq> Null \<and>
                              toString ops (txId_of ops row) = k) classRows of
             [] \<Rightarrow> None
           | r # rs \<Rightarrow> Some (parseInt ops (classification_of ops (last (r # rs)))))"
proof (induction classRows rule: rev_induct)
  case Nil
  show ?case by (simp add: buildClassMap_def)
next
  case (snoc row rows)
  show ?case
  proof (cases "txId_of ops row \<noteq> Undefined \<and> txId_of ops row \<noteq> Null \<and>
                classification_of ops row \<noteq> Undefined \<and> classification_of ops row \<noteq> Null")
    case True
    then show ?thesis
      using snoc
      by (auto simp add: buildClassMap_snoc classMap_step_def classMap_set_def Let_def
            split: list.splits)
  next
    case False
    then have "buildClassMap ops (rows @ [row]) = buildClassMap ops rows"
      by (auto simp add: buildClassMap_snoc classMap_step_def Let_def)
    with False snoc show ?thesis by auto
  qed
qed

lemma nodeType_of_entry:
  "nodeType_of (or3 (classMap_get m k)) =
     (if k \<noteq> ''__proto__'' \<and> m k = Some (IntVal 1) then ''illicit''
      else if k \<noteq> ''__proto__'' \<and> m k = Some (IntVal 2) then ''licit''
      else ''unknown'')"
  by (auto simp add: nodeType_of_def or3_def classMap_get_def split: option.splits intnum.splits)

text \<open>
  C4, as amended.  The classification map holds, for each key, the \<^verbatim>\<open>parseInt\<close> of the label
  of the last class row whose identifier and label both resolve (neither \<^verbatim>\<open>undefined\<close> nor
  \<^verbatim>\<open>null\<close>) and whose identifier renders as that key, whatever the parsed value is; the
  key \<^verbatim>\<open>__proto__\<close> is never stored.  The join yields \<^verbatim>\<open>illicit\<close> for the entry 1,
  \<^verbatim>\<open>licit\<close> for the entry 2 and \<^verbatim>\<open>unknown\<close> for any other entry and for no entry.
\<close>

theorem index_last_write:
  "buildClassMap ops classRows k =
     (if k = ''__proto__'' then None
      else case filter (\<lambda>row. txId_of ops row \<noteq> Undefined \<and> txId_of ops row \<noteq> Null \<and>
                              classification_of ops row \<noteq> Undefined \<and> classification_of ops row \<noteq> Null \<and>
                              toString ops (txId_of ops row) = k) classRows of
             [] \<Rightarrow> None
           | r # rs \<Rightarrow> Some (parseInt ops (classification_of ops (last (r # rs))))) \<and>
   nodeType_of (or3 (classMap_get (buildClassMap ops classRows) k)) =
     (if buildClassMap ops classRows k = Some (IntVal 1) then ''illicit''
      else if buildClassMap ops classRows k = Some (IntVal 2) then ''licit''
      else ''unknown'')"
proof
  show "buildClassMap ops classRows k =
     (if k = ''__proto__'' then None
      else case filter (\<lambda>row. txId_of ops row \<noteq> Undefined \<and> txId_of ops row \<noteq> Null \<and>
                              classification_of ops row \<noteq> Undefined \<and> classification_of ops row \<noteq> Null \<and>
                              toString ops (txId_of ops row) = k) classRows of
             [] \<Rightarrow> None
           | r # rs \<Rightarrow> Some (parseInt ops (classification_of ops (last (r # rs)))))"
    by (rule buildClassMap_last_write)
  have "k = ''__proto__'' \<Longrightarrow> buildClassMap ops classRows k = None"
    by (simp add: buildClassMap_last_write)
  then show "nodeType_of (or3 (classMap_get (buildClassMap ops classRows) k)) =
     (if buildClassMap ops classRows k = Some (IntVal 1) then ''illicit''
      else if buildClassMap ops classRows k = Some (IntVal 2) then ''licit''
      else ''unknown'')"
    by (auto simp add: nodeType_of_entry)
qed

theorem index_last_write_witness:
  "buildClassMap int_numops ex_classes ''3'' = Some (IntVal 3) \<and>
   buildClassMap int_numops ex_classes ''9'' = Some NaN \<and>
   nodeType_of (or3 (classMap_get (buildClassMap int_numops ex_classes) ''3'')) = ''unknown'' \<and>
   nodeType_of (or3 (classMap_get (buildClassMap int_numops ex_classes) ''1'')) = ''illicit''"
proof -
  have a: "buildClassMap int_numops ex_classes ''3'' = Some (IntVal 3)" by code_simp
  have b: "buildClassMap int_numops ex_classes ''9'' = Some NaN" by code_simp
  have c: "buildClassMap int_numops ex_classes ''1'' = Some (IntVal 1)" by code_simp
  from index_last_write [of int_numops ex_classes "''3''", THEN conjunct2] a
  have "nodeType_of (or3 (classMap_get (buildClassMap int_numops ex_classes) ''3'')) = ''unknown''"
    by simp
  moreover
  from index_last_write [of int_numops ex_classes "''1''", THEN conjunct2] c
  have "nodeType_of (or3 (classMap_get (buildClassMap int_numops ex_classes) ''1'')) = ''illicit''"
    by simp
  ultimately show ?thesis using a b by simp
qed

text \<open>
  C4 as stated fails on the label \<^verbatim>\<open>"3"\<close> (and on the number 3, which the parser's
  dynamic typing delivers for that cell): the row gets an entry with value 3.  The
  entry is observable: written after a row that labels the same transaction 1, it
  overwrites the 1, and the node comes out \<^verbatim>\<open>unknown\<close>, where an index without the
  entry keeps the transaction illicit.
\<close>

theorem index_counterexample:
  "parseInt int_numops (Str ''3'') = IntVal 3 \<and>
   buildIndex_spec int_numops [[(''txId'', Str ''a''), (''class'', Str ''3'')]] ''a'' = None \<and>
   buildClassMap int_numops [[(''txId'', Str ''a''), (''class'', Str ''3'')]] ''a'' = Some (IntVal 3) \<and>
   buildClassMap int_numops [[(''txId'', Str ''a''), (''class'', N 3)]] ''a'' = Some (IntVal 3) \<and>
   buildIndex_spec int_numops [[(''txId'', Str ''a''), (''class'', Str ''1'')],
                               [(''txId'', Str ''a''), (''class'', Str ''3'')]] ''a'' = Some (IntVal 1) \<and>
   map n_classification (nodes (assemble int_numops isFeatureKey (timestep_of int_numops)
       [[(''txId'', Str ''a''), (''class'', Str ''1'')], [(''txId'', Str ''a''), (''class'', Str ''3'')]]
       [[(''txId'', Str ''a'')]] [])) = [''unknown'']"
  by code_simp

section \<open>The feature sum\<close>

lemma isFeatureKey_aliases: "isFeatureKey = (\<lambda>key. key \<notin> set idAliases)"
  by (rule ext) (auto simp add: isFeatureKey_def idAliases_def)

lemma isFeatureKey_rev_aliases:
  "isFeatureKey_rev = (\<lambda>key. key \<notin> set idAliases \<and> key \<noteq> ''Time step'')"
  by (rule ext) (auto simp add: isFeatureKey_rev_def idAliases_def)

lemma sumFeatures_fold:
  "sumFeatures ops row ks =
     foldl (num_add ops) (num_lit ops 0)
       (map (\<lambda>k. if num_isNaN ops (parseFloat ops (get row k)) then num_lit ops 0
                  else parseFloat ops (get row k)) ks)"
  by (simp add: sumFeatures_def foldl_map Let_def)

lemma featureSum_rev_spec:
  assumes "''timestep'' \<notin> set (Object_keys row)" "''time_step'' \<notin> set (Object_keys row)"
  shows "featureSum ops isFeatureKey_rev row = featureSum_spec ops row"
proof -
  have "filter isFeatureKey_rev (Object_keys row) =
        filter (\<lambda>key. key \<notin> set idAliases \<and> key \<notin> set timestepAliases) (Object_keys row)"
    using assms by (intro filter_cong refl) (auto simp add: isFeatureKey_rev_aliases timestepAliases_def)
  then show ?thesis by (simp add: featureSum_def featureSum_spec_def)
qed

lemma processData_nodes:
  assumes "isLoaded this" "classes this = Some cs" "features this = Some fs" "edgelist this = Some es"
  shows "\<exists>g. fst (processData ops keep ts this) = Inr g \<and>
             map n_features (nodes g) =
               filter (\<lambda>row. txId_of ops row \<noteq> Undefined \<and> txId_of ops row \<noteq> Null) fs \<and>
             (\<forall>n \<in> set (nodes g). n_featureSum n = featureSum ops keep (n_features n))"
proof -
  let ?g = "assemble ops keep ts cs fs es"
  have "fst (processData ops keep ts this) = Inr ?g"
    using assms by (simp add: processData_loaded)
  moreover have "map n_features (nodes ?g) =
               filter (\<lambda>row. txId_of ops row \<noteq> Undefined \<and> txId_of ops row \<noteq> Null) fs"
    by (simp add: nodes_assemble createNodes_eq makeNode_fields comp_def)
  moreover have "\<forall>n \<in> set (nodes ?g). n_featureSum n = featureSum ops keep (n_features n)"
    by (auto simp add: nodes_assemble createNodes_eq makeNode_fields)
  ultimately show ?thesis by blast
qed

text \<open>
  C5, as amended.  For every accepted feature row (one whose identifier resolves), the node's
  \<^verbatim>\<open>featureSum\<close> is the sum, from 0 and in key order, of the \<^verbatim>\<open>parseFloat\<close> values of all
  columns other than the five identifier aliases, a value that parses to \<^verbatim>\<open>NaN\<close>
  contributing 0; nothing is thrown.  In the revision that reads \<^verbatim>\<open>Time step\<close>, that
  column is left out as well, so there the sum is the specified one on every row that
  has no column named \<^verbatim>\<open>timestep\<close> or \<^verbatim>\<open>time_step\<close>.
\<close>

theorem featureSum_columns:
  assumes "isLoaded this" "classes this = Some cs" "features this = Some fs" "edgelist this = Some es"
  shows "(\<exists>g. fst (processDataForVisualization ops this) = Inr g \<and>
             map n_features (nodes g) =
               filter (\<lambda>row. txId_of ops row \<noteq> Undefined \<and> txId_of ops row \<noteq> Null) fs \<and>
             (\<forall>n \<in> set (nodes g).
                n_featureSum n =
                  foldl (num_add ops) (num_lit ops 0)
                    (map (\<lambda>k. if num_isNaN ops (parseFloat ops (get (n_features n) k)) then num_lit ops 0
                               else parseFloat ops (get (n_features n) k))
                       (filter (\<lambda>key. key \<notin> set idAliases) (Object_keys (n_features n)))))) \<and>
         (\<exists>g. fst (processDataForVisualization_rev ops this) = Inr g \<and>
             map n_features (nodes g) =
               filter (\<lambda>row. txId_of ops row \<noteq> Undefined \<and> txId_of ops row \<noteq> Null) fs \<and>
             (\<forall>n \<in> set (nodes g).
                n_featureSum n =
                  foldl (num_add ops) (num_lit ops 0)
                    (map (\<lambda>k. if num_isNaN ops (parseFloat ops (get (n_features n) k)) then num_lit ops 0
                               else parseFloat ops (get (n_features n) k))
                       (filter (\<lambda>key. key \<notin> set idAliases \<and> key \<noteq> ''Time step'')
                          (Object_keys (n_features n)))) \<and>
                (''timestep'' \<notin> set (Object_keys (n_features n)) \<and>
                 ''time_step'' \<notin> set (Object_keys (n_features n)) \<longrightarrow>
                   n_featureSum n = featureSum_spec ops (n_features n))))"
proof
  from processData_nodes [OF assms, of ops isFeatureKey "timestep_of ops"]
  show "\<exists>g. fst (processDataForVisualization ops this) = Inr g \<and>
             map n_features (nodes g) =
               filter (\<lambda>row. txId_of ops row \<noteq> Undefined \<and> txId_of ops row \<noteq> Null) fs \<and>
             (\<forall>n \<in> set (nodes g).
                n_featureSum n =
                  foldl (num_add ops) (num_lit ops 0)
                    (map (\<lambda>k. if num_isNaN ops (parseFloat ops (get (n_features n) k)) then num_lit ops 0
                               else parseFloat ops (get (n_features n) k))
                       (filter (\<lambda>key. key \<notin> set idAliases) (Object_keys (n_features n)))))"
    by (simp add: processDataForVisualization_def featureSum_def sumFeatures_fold isFeatureKey_aliases)
  from processData_nodes [OF assms, of ops isFeatureKey_rev "timestep_of_rev ops"]
  obtain g where g: "fst (processDataForVisualization_rev ops this) = Inr g"
    and rows: "map n_features (nodes g) =
               filter (\<lambda>row. txId_of ops row \<noteq> Undefined \<and> txId_of ops row \<noteq> Null) fs"
    and sums: "\<forall>n \<in> set (nodes g). n_featureSum n = featureSum ops isFeatureKey_rev (n_features n)"
    by (auto simp add: processDataForVisualization_rev_def)
  have "\<forall>n \<in> set (nodes g).
                n_featureSum n =
                  foldl (num_add ops) (num_lit ops 0)
                    (map (\<lambda>k. if num_isNaN ops (parseFloat ops (get (n_features n) k)) then num_lit ops 0
                               else parseFloat ops (get (n_features n) k))
                       (filter (\<lambda>key. key \<notin> set idAliases \<and> key \<noteq> ''Time step'')
                          (Object_keys (n_features n)))) \<and>
                (''timestep'' \<notin> set (Object_keys (n_features n)) \<and>
                 ''time_step'' \<notin> set (Object_keys (n_features n)) \<longrightarrow>
                   n_featureSum n = featureSum_spec ops (n_features n))"
    using sums by (simp add: featureSum_rev_spec) (simp add: featureSum_def sumFeatures_fold isFeatureKey_rev_aliases)
  with g rows
  show "\<exists>g. fst (processDataForVisualization_rev ops this) = Inr g \<and>
             map n_features (nodes g) =
               filter (\<lambda>row. txId_of ops row \<noteq> Undefined \<and> txId_of ops row \<noteq> Null) fs \<and>
             (\<forall>n \<in> set (nodes g).
                n_featureSum n =
                  foldl (num_add ops) (num_lit ops 0)
                    (map (\<lambda>k. if num_isNaN ops (parseFloat ops (get (n_features n) k)) then num_lit ops 0
                               else parseFloat ops (get (n_features n) k))
                       (filter (\<lambda>key. key \<notin> set idAliases \<and> key \<noteq> ''Time step'')
                          (Object_keys (n_features n)))) \<and>
                (''timestep'' \<notin> set (Object_keys (n_features n)) \<and>
                 ''time_step'' \<notin> set (Object_keys (n_features n)) \<longrightarrow>
                   n_featureSum n = featureSum_spec ops (n_features n)))"
    by blast
qed


theorem featureSum_columns_witness:
  "\<exists>g. fst (processDataForVisualization int_numops ex_loader) = Inr g \<and>
       map n_features (nodes g) =
         filter (\<lambda>row. txId_of int_numops row \<noteq> Undefined \<and> txId_of int_numops row \<noteq> Null) ex_features \<and>
       map n_featureSum (nodes g) = [IntVal 7, IntVal 40, IntVal 10, IntVal 0]"
proof -
  from featureSum_columns [OF ex_loader_fields, of int_numops, THEN conjunct1]
  obtain g where g: "fst (processDataForVisualization int_numops ex_loader) = Inr g"
    and rows: "map n_features (nodes g) =
         filter (\<lambda>row. txId_of int_numops row \<noteq> Undefined \<and> txId_of int_numops row \<noteq> Null) ex_features"
    by blast
  have "map n_featureSum (nodes (assemble int_numops isFeatureKey (timestep_of int_numops)
          ex_classes ex_features ex_edges)) = [IntVal 7, IntVal 40, IntVal 10, IntVal 0]"
    by code_simp
  with g have "map n_featureSum (nodes g) = [IntVal 7, IntVal 40, IntVal 10, IntVal 0]"
    by (simp add: processDataForVisualization_def processData_loaded [OF ex_loader_fields])
  with g rows show ?thesis by (intro exI [of _ g] conjI)
qed

text \<open>
  C5 as stated fails on a row with a \<^verbatim>\<open>timestep\<close> column: for
  \<^verbatim>\<open>{txId: 1, timestep: 5, f1: 2}\<close> the node's \<^verbatim>\<open>featureSum\<close> is 7, in the loader and in
  its revision, where the sum over the columns that are neither identifier nor timestep
  columns is 2.  The same holds when the cells are the strings that the revision's parser
  delivers.
\<close>

theorem featureSum_counterexample:
  "map n_features (nodes (projr (fst (processDataForVisualization int_numops ts_loader))))
     = [[(''txId'', N 1), (''timestep'', N 5), (''f1'', N 2)]] \<and>
   map n_featureSum (nodes (projr (fst (processDataForVisualization int_numops ts_loader))))
     = [IntVal 7] \<and>
   map n_featureSum (nodes (projr (fst (processDataForVisualization_rev int_numops ts_loader))))
     = [IntVal 7] \<and>
   featureSum_spec int_numops [(''txId'', N 1), (''timestep'', N 5), (''f1'', N 2)] = IntVal 2 \<and>
   featureSum int_numops isFeatureKey_rev
     [(''txId'', Str ''1''), (''timestep'', Str ''5''), (''f1'', Str ''2'')] = IntVal 7 \<and>
   featureSum_spec int_numops
     [(''txId'', Str ''1''), (''timestep'', Str ''5''), (''f1'', Str ''2'')] = IntVal 2"
  by code_simp

section \<open>Rounded products are monotone\<close>

lemma bits_upper: "p < 2 ^ bits p"
proof (induction p rule: bits.induct)
  case (1 n)
  show ?case
  proof (cases "n = 0")
    case True
    then show ?thesis by simp
  next
    case False
    with 1 have "n div 2 < 2 ^ bits (n div 2)" by simp
    then have "n < 2 * 2 ^ bits (n div 2)" by arith
    with False show ?thesis by (subst bits.simps) simp
  qed
qed

lemma bits_lower: "p \<noteq> 0 \<Longrightarrow> 2 ^ (bits p - 1) \<le> p"
proof (induction p rule: bits.induct)
  case (1 n)
  show ?case
  proof (cases "n div 2 = 0")
    case True
    with 1(2) have "n = 1" by arith
    then show ?thesis by (subst bits.simps) (simp add: bits.simps [of 0])
  next
    case False
    with 1 have ih: "2 ^ (bits (n div 2) - 1) \<le> n div 2" by simp
    from False have pos: "bits (n div 2) \<noteq> 0" by (subst bits.simps) simp
    have "bits n = Suc (bits (n div 2))" using 1(2) by (subst bits.simps) simp
    then have "(2::nat) ^ (bits n - 1) = 2 * 2 ^ (bits (n div 2) - 1)"
      using pos by (cases "bits (n div 2)") simp_all
    with ih show ?thesis by arith
  qed
qed

lemma bits_0: "bits 0 = 0"
  by (simp add: bits.simps)

lemma bits_mono: "p \<le> q \<Longrightarrow> bits p \<le> bits q"
proof (rule ccontr)
  assume le: "p \<le> q" and "\<not> bits p \<le> bits q"
  then have lt: "bits q < bits p" by simp
  then have "p \<noteq> 0" by (cases "p = 0") (simp_all add: bits_0)
  then have "2 ^ (bits p - 1) \<le> p" by (rule bits_lower)
  moreover from lt have "(2::nat) ^ bits q \<le> 2 ^ (bits p - 1)"
    by (intro power_increasing) auto
  moreover have "q < 2 ^ bits q" by (rule bits_upper)
  ultimately show False using le by arith
qed

lemma round53_small: "bits p \<le> 53 \<Longrightarrow> round53 p = p"
  by (simp add: round53_def)

lemma round53_large:
  "\<not> bits p \<le> 53 \<Longrightarrow>
   round53 p = (p div 2 ^ (bits p - 53) +
                  (if 2 * (p mod 2 ^ (bits p - 53)) > 2 ^ (bits p - 53) \<or>
                      (2 * (p mod 2 ^ (bits p - 53)) = 2 ^ (bits p - 53) \<and> odd (p div 2 ^ (bits p - 53)))
                   then 1 else 0)) * 2 ^ (bits p - 53)"
  by (simp add: round53_def Let_def)

lemma round53_upper: "round53 p \<le> 2 ^ bits p"
proof (cases "bits p \<le> 53")
  case True
  with bits_upper [of p] show ?thesis by (simp add: round53_small)
next
  case False
  define d where "d = bits p - 53"
  define B where "B = (2::nat) ^ 53"
  from False have "bits p = 53 + d" by (simp add: d_def)
  then have b: "2 ^ bits p = B * 2 ^ d"
    by (simp only: B_def power_add)
  have "p < B * 2 ^ d" using bits_upper [of p] by (simp only: b)
  then have "p div 2 ^ d < B" by (rule less_mult_imp_div_less)
  then have "p div 2 ^ d + 1 \<le> B" by simp
  then have "(p div 2 ^ d + 1) * 2 ^ d \<le> B * 2 ^ d" by (rule mult_le_mono1)
  moreover have "round53 p \<le> (p div 2 ^ d + 1) * 2 ^ d"
    using False by (simp add: round53_large d_def)
  ultimately show ?thesis by (simp only: b)
qed

lemma round53_lower: "p \<noteq> 0 \<Longrightarrow> 2 ^ (bits p - 1) \<le> round53 p"
proof (cases "bits p \<le> 53")
  case True
  assume "p \<noteq> 0"
  with True bits_lower [of p] show ?thesis by (simp add: round53_small)
next
  case False
  assume nz: "p \<noteq> 0"
  define d where "d = bits p - 53"
  define B where "B = (2::nat) ^ 52"
  from False have "bits p - 1 = 52 + d" by (simp add: d_def)
  then have b: "2 ^ (bits p - 1) = B * 2 ^ d"
    by (simp only: B_def power_add)
  have "B * 2 ^ d \<le> p" using bits_lower [OF nz] by (simp only: b)
  then have "B \<le> p div 2 ^ d" by (simp add: less_eq_div_iff_mult_less_eq)
  then have "B * 2 ^ d \<le> (p div 2 ^ d) * 2 ^ d" by (rule mult_le_mono1)
  moreover have "(p div 2 ^ d) * 2 ^ d \<le> round53 p"
    using False by (simp add: round53_large d_def)
  ultimately show ?thesis by (simp only: b)
qed

lemma round53_mono:
  assumes "p \<le> q"
  shows "round53 p \<le> round53 q"
proof (cases "bits p = bits q")
  case True
  show ?thesis
  proof (cases "bits p \<le> 53")
    case small: True
    with True assms show ?thesis by (simp add: round53_small)
  next
    case False
    define d where "d = bits p - 53"
    define up :: "nat \<Rightarrow> nat" where "up x = (if 2 * (x mod 2 ^ d) > 2 ^ d \<or>
                      (2 * (x mod 2 ^ d) = 2 ^ d \<and> odd (x div 2 ^ d)) then 1 else 0)" for x
    have rp: "round53 p = (p div 2 ^ d + up p) * 2 ^ d"
      using False by (simp add: round53_large d_def up_def)
    have rq: "round53 q = (q div 2 ^ d + up q) * 2 ^ d"
      using False True by (simp add: round53_large d_def up_def)
    have le: "p div 2 ^ d \<le> q div 2 ^ d" using assms by (rule div_le_mono)
    have "p div 2 ^ d + up p \<le> q div 2 ^ d + up q"
    proof (cases "p div 2 ^ d = q div 2 ^ d")
      case eq: True
      from assms have "p div 2 ^ d * 2 ^ d + p mod 2 ^ d \<le> q div 2 ^ d * 2 ^ d + q mod 2 ^ d"
        by (simp only: div_mult_mod_eq)
      with eq have "p mod 2 ^ d \<le> q mod 2 ^ d" by simp
      then have "up p \<le> up q" using eq by (auto simp add: up_def)
      with eq show ?thesis by simp
    next
      case False
      with le have "p div 2 ^ d + 1 \<le> q div 2 ^ d" by simp
      moreover have "up p \<le> 1" by (simp add: up_def)
      ultimately show ?thesis by simp
    qed
    then show ?thesis by (simp add: rp rq)
  qed
next
  case False
  with bits_mono [OF assms] have lt: "bits p < bits q" by simp
  then have "q \<noteq> 0" by (cases "q = 0") (simp_all add: bits_0)
  then have "2 ^ (bits q - 1) \<le> round53 q" by (rule round53_lower)
  moreover from lt have "(2::nat) ^ bits p \<le> 2 ^ (bits q - 1)"
    by (intro power_increasing) auto
  moreover have "round53 p \<le> 2 ^ bits p" by (rule round53_upper)
  ultimately show ?thesis by arith
qed

lemma Math_floor_times_const_nonneg: "0 \<le> n \<Longrightarrow> 0 \<le> Math_floor (times_const n c)"
  by (cases c) (simp add: Math_floor_def times_const_def sgn_if pos_imp_zdiv_nonneg_iff)

lemma Math_floor_times_const_mono:
  assumes "0 \<le> n" "n \<le> n'"
  shows "Math_floor (times_const n c) \<le> Math_floor (times_const n' c)"
proof (cases c)
  case (Pair m s)
  from assms have "nat \<bar>n\<bar> * m \<le> nat \<bar>n'\<bar> * m" by (intro mult_le_mono1) simp
  then have r: "round53 (nat \<bar>n\<bar> * m) \<le> round53 (nat \<bar>n'\<bar> * m)" by (rule round53_mono)
  have "sgn n * int (round53 (nat \<bar>n\<bar> * m)) \<le> sgn n' * int (round53 (nat \<bar>n'\<bar> * m))"
  proof (cases "n = 0")
    case True
    with assms show ?thesis by (simp add: sgn_if)
  next
    case False
    with assms r show ?thesis by (simp add: sgn_if)
  qed
  then show ?thesis by (simp add: Pair Math_floor_def times_const_def zdiv_mono1)
qed

section \<open>The sampler takes prefixes\<close>

lemma nodeType_of_illicit: "nodeType_of c = ''illicit'' \<longleftrightarrow> c = PNum (IntVal 1)"
  by (simp add: nodeType_of_def)

lemma nodeType_of_licit: "nodeType_of c = ''licit'' \<longleftrightarrow> c = PNum (IntVal 2)"
  by (auto simp add: nodeType_of_def)

lemma nodeType_of_unknown:
  "nodeType_of c = ''unknown'' \<longleftrightarrow> c \<noteq> PNum (IntVal 1) \<and> c \<noteq> PNum (IntVal 2)"
  by (simp add: nodeType_of_def)

lemma pushTx_class:
  assumes "txId_of ops row \<noteq> Undefined" "txId_of ops row \<noteq> Null"
  shows "pushTx (or3 (classMap_get cm (toString ops (txId_of ops row)))) row (i, l, u) =
           (i @ filter (\<lambda>r. txClass ops cm r = Some ''illicit'') [row],
            l @ filter (\<lambda>r. txClass ops cm r = Some ''licit'') [row],
            u @ filter (\<lambda>r. txClass ops cm r = Some ''unknown'') [row])"
  using assms
  by (simp add: pushTx_def txClass_def Let_def nodeType_of_illicit nodeType_of_licit nodeType_of_unknown)

lemma filter_unresolved:
  assumes "txId_of ops row = Undefined \<or> txId_of ops row = Null"
  shows "filter (\<lambda>r. txClass ops cm r = Some c) (row # rows) = filter (\<lambda>r. txClass ops cm r = Some c) rows"
  using assms by (auto simp add: txClass_def Let_def)

lemma separateTxs_filter:
  "separateTxs ops cm rows (i, l, u) =
     (i @ filter (\<lambda>r. txClass ops cm r = Some ''illicit'') rows,
      l @ filter (\<lambda>r. txClass ops cm r = Some ''licit'') rows,
      u @ filter (\<lambda>r. txClass ops cm r = Some ''unknown'') rows)"
proof (induction rows arbitrary: i l u)
  case Nil
  show ?case by simp
next
  case (Cons row rows)
  show ?case
  proof (cases "txId_of ops row = Undefined \<or> txId_of ops row = Null")
    case True
    then have "separateTxs ops cm (row # rows) (i, l, u) = separateTxs ops cm rows (i, l, u)"
      by (auto simp add: Let_def)
    with True show ?thesis by (simp only: Cons.IH filter_unresolved)
  next
    case False
    then have "separateTxs ops cm (row # rows) (i, l, u) =
        separateTxs ops cm rows
          (i @ filter (\<lambda>r. txClass ops cm r = Some ''illicit'') [row],
            l @ filter (\<lambda>r. txClass ops cm r = Some ''licit'') [row],
            u @ filter (\<lambda>r. txClass ops cm r = Some ''unknown'') [row])"
      by (simp add: Let_def pushTx_class del: filter.simps)
    then show ?thesis by (simp only: Cons.IH append_assoc filter_append [symmetric] append_Cons append_Nil)
  qed
qed

lemma examineTxs_prefix:
  "\<exists>k \<le> length rows.
     examineTxs ops cm maxNodes rows (i, l, u) =
       (i @ filter (\<lambda>r. txClass ops cm r = Some ''illicit'') (take k rows),
        l @ filter (\<lambda>r. txClass ops cm r = Some ''licit'') (take k rows),
        u @ filter (\<lambda>r. txClass ops cm r = Some ''unknown'') (take k rows)) \<and>
     (k = length rows \<or> enoughTxs maxNodes (examineTxs ops cm maxNodes rows (i, l, u)))"
proof (induction rows arbitrary: i l u)
  case Nil
  show ?case by simp
next
  case (Cons row rows)
  let ?I = "\<lambda>rs. filter (\<lambda>r. txClass ops cm r = Some ''illicit'') rs"
  let ?L = "\<lambda>rs. filter (\<lambda>r. txClass ops cm r = Some ''licit'') rs"
  let ?U = "\<lambda>rs. filter (\<lambda>r. txClass ops cm r = Some ''unknown'') rs"
  show ?case
  proof (cases "txId_of ops row = Undefined \<or> txId_of ops row = Null")
    case True
    then have step: "examineTxs ops cm maxNodes (row # rows) (i, l, u) = examineTxs ops cm maxNodes rows (i, l, u)"
      by (auto simp add: Let_def)
    from Cons.IH [of i l u] obtain k where k: "k \<le> length rows"
      "examineTxs ops cm maxNodes rows (i, l, u) = (i @ ?I (take k rows), l @ ?L (take k rows), u @ ?U (take k rows))"
      "k = length rows \<or> enoughTxs maxNodes (examineTxs ops cm maxNodes rows (i, l, u))"
      by blast
    from True have "?I (take (Suc k) (row # rows)) = ?I (take k rows)"
      "?L (take (Suc k) (row # rows)) = ?L (take k rows)"
      "?U (take (Suc k) (row # rows)) = ?U (take k rows)"
      by (simp_all only: take_Suc_Cons filter_unresolved)
    with k step show ?thesis
      by (intro exI [of _ "Suc k"]) (simp del: filter.simps take_Suc_Cons)
  next
    case False
    let ?txs = "(i @ ?I [row], l @ ?L [row], u @ ?U [row])"
    from False have push: "pushTx (or3 (classMap_get cm (toString ops (txId_of ops row)))) row (i, l, u) = ?txs"
      by (simp add: pushTx_class del: filter.simps)
    show ?thesis
    proof (cases "enoughTxs maxNodes ?txs")
      case True
      with False push have "examineTxs ops cm maxNodes (row # rows) (i, l, u) = ?txs"
        by (simp add: Let_def del: filter.simps)
      with True show ?thesis
        by (intro exI [of _ "Suc 0"]) (simp del: filter.simps)
    next
      case notyet: False
      with False push
      have step: "examineTxs ops cm maxNodes (row # rows) (i, l, u) = examineTxs ops cm maxNodes rows ?txs"
        by (simp add: Let_def del: filter.simps)
      from Cons.IH [of "i @ ?I [row]" "l @ ?L [row]" "u @ ?U [row]"] obtain k where k: "k \<le> length rows"
        "examineTxs ops cm maxNodes rows ?txs =
           ((i @ ?I [row]) @ ?I (take k rows), (l @ ?L [row]) @ ?L (take k rows), (u @ ?U [row]) @ ?U (take k rows))"
        "k = length rows \<or> enoughTxs maxNodes (examineTxs ops cm maxNodes rows ?txs)"
        by blast
      have "take (Suc k) (row # rows) = [row] @ take k rows" by simp
      then have "?I (take (Suc k) (row # rows)) = ?I [row] @ ?I (take k rows)"
        "?L (take (Suc k) (row # rows)) = ?L [row] @ ?L (take k rows)"
        "?U (take (Suc k) (row # rows)) = ?U [row] @ ?U (take k rows)"
        by (simp_all only: filter_append)
      with k step show ?thesis
        by (intro exI [of _ "Suc k"]) (simp del: filter.simps take_Suc_Cons)
    qed
  qed
qed

lemma slice0_min:
  "0 \<le> e \<Longrightarrow> slice0 xs (min e (int (length xs))) = take (nat e) xs"
  by (auto simp add: slice0_def min_def)

lemma slice0_min_cap:
  "0 \<le> e \<Longrightarrow> 0 \<le> cap \<Longrightarrow> slice0 xs (min (min e (int (length xs))) cap) = take (nat (min e cap)) xs"
  by (auto simp add: slice0_def min_def)

lemma txClass_partition: "row \<in> set (classPartition ops cm c rows) \<Longrightarrow> txClass ops cm row = Some c"
  by (simp add: classPartition_def)

lemma features_createNodes:
  "map n_features (createNodes ops keep ts cm rows) = filter (\<lambda>row. txClass ops cm row \<noteq> None) rows"
  by (induction rows) (auto simp add: Let_def makeNode_fields txClass_def)

lemma count_createNodes:
  "length (filter (\<lambda>n. n_classification n = c) (createNodes ops keep ts cm rows)) =
   length (classPartition ops cm c rows)"
  by (induction rows) (auto simp add: Let_def classification_makeNode txClass_def classPartition_def)

lemma prefixSample_resolved:
  "filter (\<lambda>row. txClass ops cm row \<noteq> None) (prefixSample ops cm lens rows) = prefixSample ops cm lens rows"
proof -
  obtain a b c where lens: "lens = (a, b, c)" by (cases lens) auto
  have "\<forall>row \<in> set (prefixSample ops cm lens rows). txClass ops cm row \<noteq> None"
    by (auto simp add: lens prefixSample_def dest!: in_set_takeD txClass_partition)
  then show ?thesis by (simp add: filter_id_conv)
qed

lemma classPartition_take_same:
  "classPartition ops cm c (take k (classPartition ops cm c rows)) = take k (classPartition ops cm c rows)"
  unfolding classPartition_def
  by (rule filter_True) (auto dest: in_set_takeD)

lemma classPartition_take_other:
  "c \<noteq> c' \<Longrightarrow> classPartition ops cm c (take k (classPartition ops cm c' rows)) = []"
  unfolding classPartition_def
  by (auto simp add: filter_empty_conv dest!: in_set_takeD)

lemma classPartition_append:
  "classPartition ops cm c (xs @ ys) = classPartition ops cm c xs @ classPartition ops cm c ys"
  by (simp add: classPartition_def)

lemma count_prefixSample:
  "length (classPartition ops cm ''illicit'' (prefixSample ops cm (a, b, c) rows)) =
     min (nat a) (length (classPartition ops cm ''illicit'' rows))"
  "length (classPartition ops cm ''licit'' (prefixSample ops cm (a, b, c) rows)) =
     min (nat b) (length (classPartition ops cm ''licit'' rows))"
  "length (classPartition ops cm ''unknown'' (prefixSample ops cm (a, b, c) rows)) =
     min (nat c) (length (classPartition ops cm ''unknown'' rows))"
  by (simp_all add: prefixSample_def classPartition_append classPartition_take_same
        classPartition_take_other min.commute)

lemma separateTxs_partition:
  "separateTxs ops cm rows ([], [], []) =
     (classPartition ops cm ''illicit'' rows, classPartition ops cm ''licit'' rows,
      classPartition ops cm ''unknown'' rows)"
  by (simp add: separateTxs_filter classPartition_def)

lemma loadSampleSubset_loaded:
  assumes "isLoaded this" "classes this = Some cs" "features this = Some fs" "edgelist this = Some es"
    and "0 \<le> maxNodes"
  shows "fst (loadSampleSubset ops maxNodes this) =
           Inr (assemble ops isFeatureKey (timestep_of ops) cs
                  (prefixSample ops (buildClassMap ops cs)
                     (Math_floor (times_const (min maxNodes (int (length fs))) c_0_1),
                      Math_floor (times_const (min maxNodes (int (length fs))) c_0_4),
                      Math_floor (times_const (min maxNodes (int (length fs))) c_0_5)) fs)
                  es)"
proof -
  have n: "0 \<le> min maxNodes (int (length fs))" using assms(5) by simp
  show ?thesis
    using assms(1-4)
    by (simp add: loadSampleSubset_def Let_def separateTxs_partition prefixSample_def
          slice0_min [OF Math_floor_times_const_nonneg [OF n]]
          processDataForVisualization_def processData_def)
qed

lemma int_min_nat: "0 \<le> a \<Longrightarrow> int (min (nat a) n) = min a (int n)"
  by (auto simp add: min_def)

lemma assemble_prefixSample:
  fixes ops :: "'n numops" and keep ts cs rows es a b c
  assumes "0 \<le> a" "0 \<le> b" "0 \<le> c"
  defines "g \<equiv> assemble ops keep ts cs (prefixSample ops (buildClassMap ops cs) (a, b, c) rows) es"
  shows "map n_features (nodes g) = prefixSample ops (buildClassMap ops cs) (a, b, c) rows"
    and "int (s_illicit (statistics g)) = min a (int (length (classPartition ops (buildClassMap ops cs) ''illicit'' rows)))"
    and "int (s_licit (statistics g)) = min b (int (length (classPartition ops (buildClassMap ops cs) ''licit'' rows)))"
    and "int (s_unknown (statistics g)) = min c (int (length (classPartition ops (buildClassMap ops cs) ''unknown'' rows)))"
proof -
  show "map n_features (nodes g) = prefixSample ops (buildClassMap ops cs) (a, b, c) rows"
    by (simp add: g_def nodes_assemble features_createNodes prefixSample_resolved del: not_None_eq)
  show "int (s_illicit (statistics g)) = min a (int (length (classPartition ops (buildClassMap ops cs) ''illicit'' rows)))"
    using assms(1)
    by (simp add: g_def statistics_assemble nodes_assemble count_createNodes count_prefixSample int_min_nat)
  show "int (s_licit (statistics g)) = min b (int (length (classPartition ops (buildClassMap ops cs) ''licit'' rows)))"
    using assms(2)
    by (simp add: g_def statistics_assemble nodes_assemble count_createNodes count_prefixSample int_min_nat)
  show "int (s_unknown (statistics g)) = min c (int (length (classPartition ops (buildClassMap ops cs) ''unknown'' rows)))"
    using assms(3)
    by (simp add: g_def statistics_assemble nodes_assemble count_createNodes count_prefixSample int_min_nat)
qed

lemma examineTxs_partition:
  "\<exists>k \<le> length rows.
     examineTxs ops cm maxNodes rows ([], [], []) =
       (classPartition ops cm ''illicit'' (take k rows), classPartition ops cm ''licit'' (take k rows),
        classPartition ops cm ''unknown'' (take k rows)) \<and>
     (k = length rows \<or>
      enoughTxs maxNodes
        (classPartition ops cm ''illicit'' (take k rows), classPartition ops cm ''licit'' (take k rows),
         classPartition ops cm ''unknown'' (take k rows)))"
proof -
  from examineTxs_prefix [of rows ops cm maxNodes "[]" "[]" "[]"]
  obtain k where k: "k \<le> length rows"
    and txs: "examineTxs ops cm maxNodes rows ([], [], []) =
       (classPartition ops cm ''illicit'' (take k rows), classPartition ops cm ''licit'' (take k rows),
        classPartition ops cm ''unknown'' (take k rows))"
    and stop: "k = length rows \<or> enoughTxs maxNodes (examineTxs ops cm maxNodes rows ([], [], []))"
    unfolding classPartition_def append_Nil by blast
  from stop have "k = length rows \<or>
      enoughTxs maxNodes
        (classPartition ops cm ''illicit'' (take k rows), classPartition ops cm ''licit'' (take k rows),
         classPartition ops cm ''unknown'' (take k rows))"
    by (simp only: txs)
  with k txs show ?thesis by blast
qed

lemma loadSampleSubset_rev_loaded:
  assumes "isLoaded this" "classes this = Some cs" "features this = Some fs" "edgelist this = Some es"
    and "0 \<le> maxNodes"
  shows "\<exists>k \<le> min (length fs) 10000.
           (k = min (length fs) 10000 \<or>
            enoughTxs maxNodes
              (classPartition ops (buildClassMap ops cs) ''illicit'' (take k fs),
               classPartition ops (buildClassMap ops cs) ''licit'' (take k fs),
               classPartition ops (buildClassMap ops cs) ''unknown'' (take k fs))) \<and>
           fst (loadSampleSubset_rev ops maxNodes this) =
             Inr (assemble ops isFeatureKey_rev (timestep_of_rev ops) cs
                    (prefixSample ops (buildClassMap ops cs)
                       (min (Math_floor (times_const (min maxNodes (int (min (length fs) 10000))) c_0_15)) 50,
                        min (Math_floor (times_const (min maxNodes (int (min (length fs) 10000))) c_0_35)) 200,
                        min (Math_floor (times_const (min maxNodes (int (min (length fs) 10000))) c_0_5)) 250)
                       (take k fs))
                    es)"
proof -
  let ?cm = "buildClassMap ops cs"
  let ?m = "min (length fs) 10000"
  let ?P = "\<lambda>c rows. classPartition ops ?cm c rows"
  from examineTxs_partition [of "take ?m fs" ops ?cm maxNodes]
  obtain k where k0: "k \<le> length (take ?m fs)"
    and txs: "examineTxs ops ?cm maxNodes (take ?m fs) ([], [], []) =
               (?P ''illicit'' (take k (take ?m fs)), ?P ''licit'' (take k (take ?m fs)),
                ?P ''unknown'' (take k (take ?m fs)))"
    and stop0: "k = length (take ?m fs) \<or> enoughTxs maxNodes
               (?P ''illicit'' (take k (take ?m fs)), ?P ''licit'' (take k (take ?m fs)),
                ?P ''unknown'' (take k (take ?m fs)))"
    by blast
  from k0 have k: "k \<le> ?m" by simp
  from k have km: "min k ?m = k" by simp
  then have tk: "take k (take ?m fs) = take k fs" by simp
  have n: "0 \<le> min maxNodes (int ?m)" using assms(5) by simp
  note nonneg = Math_floor_times_const_nonneg [OF n]
  have "fst (loadSampleSubset_rev ops maxNodes this) =
             Inr (assemble ops isFeatureKey_rev (timestep_of_rev ops) cs
                    (prefixSample ops ?cm
                       (min (Math_floor (times_const (min maxNodes (int ?m)) c_0_15)) 50,
                        min (Math_floor (times_const (min maxNodes (int ?m)) c_0_35)) 200,
                        min (Math_floor (times_const (min maxNodes (int ?m)) c_0_5)) 250)
                       (take k fs))
                    es)"
    using assms(1-4)
    by (simp add: loadSampleSubset_rev_def Let_def txs tk km prefixSample_def
          slice0_min_cap [OF nonneg]
          processDataForVisualization_rev_def processData_def)
  moreover from stop0 have "k = ?m \<or> enoughTxs maxNodes
               (?P ''illicit'' (take k fs), ?P ''licit'' (take k fs), ?P ''unknown'' (take k fs))"
    by (simp only: tk length_take min.idem min.commute min.left_commute min.assoc) simp
  ultimately show ?thesis using k by (intro exI [of _ k]) simp
qed

text \<open>
  C7, as amended.  For every loaded state and every target maximum \<open>maxNodes \<ge> 0\<close>, let
  \<open>n\<close> be the smaller of \<open>maxNodes\<close> and the number of feature rows.  The sampler takes from
  each class partition (the rows of that class in their original order) the prefix of length
  \<open>min (floor (n * proportion)) partitionSize\<close>, with the proportions 0.1, 0.4 and 0.5,
  concatenates the three prefixes in the order illicit, licit, unknown, and the nodes of the
  result are the nodes of exactly these rows, in this order; the number of illicit nodes
  never exceeds \<open>floor (maxNodes * 0.1)\<close>.  The revision with the examination ceiling does
  the same with \<open>n\<close> the smaller of \<open>maxNodes\<close> and the number of rows it may examine (at
  most 10000), the partitions of the rows examined before its scan stops, the proportions
  0.15, 0.35 and 0.5 and the prefix length
  \<open>min (floor (n * proportion)) partitionSize hardCap\<close> with the caps 50, 200 and 250.
\<close>

theorem sample_prefixes:
  assumes "isLoaded this" "classes this = Some cs" "features this = Some fs" "edgelist this = Some es"
    and "0 \<le> maxNodes"
  shows "(\<exists>g. fst (loadSampleSubset ops maxNodes this) = Inr g \<and>
            map n_features (nodes g) =
              prefixSample ops (buildClassMap ops cs)
                (Math_floor (times_const (min maxNodes (int (length fs))) c_0_1),
                 Math_floor (times_const (min maxNodes (int (length fs))) c_0_4),
                 Math_floor (times_const (min maxNodes (int (length fs))) c_0_5)) fs \<and>
            int (s_illicit (statistics g)) =
              min (Math_floor (times_const (min maxNodes (int (length fs))) c_0_1))
                  (int (length (classPartition ops (buildClassMap ops cs) ''illicit'' fs))) \<and>
            int (s_licit (statistics g)) =
              min (Math_floor (times_const (min maxNodes (int (length fs))) c_0_4))
                  (int (length (classPartition ops (buildClassMap ops cs) ''licit'' fs))) \<and>
            int (s_unknown (statistics g)) =
              min (Math_floor (times_const (min maxNodes (int (length fs))) c_0_5))
                  (int (length (classPartition ops (buildClassMap ops cs) ''unknown'' fs))) \<and>
            int (s_illicit (statistics g)) \<le> Math_floor (times_const maxNodes c_0_1)) \<and>
         (\<exists>g k. k \<le> min (length fs) 10000 \<and>
            (k = min (length fs) 10000 \<or>
             enoughTxs maxNodes
               (classPartition ops (buildClassMap ops cs) ''illicit'' (take k fs),
                classPartition ops (buildClassMap ops cs) ''licit'' (take k fs),
                classPartition ops (buildClassMap ops cs) ''unknown'' (take k fs))) \<and>
            fst (loadSampleSubset_rev ops maxNodes this) = Inr g \<and>
            map n_features (nodes g) =
              prefixSample ops (buildClassMap ops cs)
                (min (Math_floor (times_const (min maxNodes (int (min (length fs) 10000))) c_0_15)) 50,
                 min (Math_floor (times_const (min maxNodes (int (min (length fs) 10000))) c_0_35)) 200,
                 min (Math_floor (times_const (min maxNodes (int (min (length fs) 10000))) c_0_5)) 250)
                (take k fs) \<and>
            int (s_illicit (statistics g)) =
              min (min (Math_floor (times_const (min maxNodes (int (min (length fs) 10000))) c_0_15)) 50)
                  (int (length (classPartition ops (buildClassMap ops cs) ''illicit'' (take k fs)))) \<and>
            int (s_licit (statistics g)) =
              min (min (Math_floor (times_const (min maxNodes (int (min (length fs) 10000))) c_0_35)) 200)
                  (int (length (classPartition ops (buildClassMap ops cs) ''licit'' (take k fs)))) \<and>
            int (s_unknown (statistics g)) =
              min (min (Math_floor (times_const (min maxNodes (int (min (length fs) 10000))) c_0_5)) 250)
                  (int (length (classPartition ops (buildClassMap ops cs) ''unknown'' (take k fs)))) \<and>
            int (s_illicit (statistics g)) \<le> Math_floor (times_const maxNodes c_0_15))"
    (is "(\<exists>g. ?R g \<and> ?F g \<and> ?I g \<and> ?L g \<and> ?U g \<and> ?B g) \<and>
         (\<exists>g k. ?K' k \<and> ?S' k \<and> ?R' g k \<and> ?F' g k \<and> ?I' g k \<and> ?L' g k \<and> ?U' g k \<and> ?B' g)")
proof
  let ?n = "min maxNodes (int (length fs))"
  have n: "0 \<le> ?n" using assms(5) by simp
  note nonneg = Math_floor_times_const_nonneg [OF n]
  let ?g = "assemble ops isFeatureKey (timestep_of ops) cs
              (prefixSample ops (buildClassMap ops cs)
                (Math_floor (times_const ?n c_0_1), Math_floor (times_const ?n c_0_4),
                 Math_floor (times_const ?n c_0_5)) fs) es"
  note facts = assemble_prefixSample [where ops = ops and keep = isFeatureKey
      and ts = "timestep_of ops" and cs = cs and rows = fs and es = es,
      OF nonneg [of c_0_1] nonneg [of c_0_4] nonneg [of c_0_5]]
  have r: "?R ?g" by (rule loadSampleSubset_loaded [OF assms])
  have f: "?F ?g" by (rule facts(1))
  have i: "?I ?g" by (rule facts(2))
  have l: "?L ?g" by (rule facts(3))
  have u: "?U ?g" by (rule facts(4))
  have "Math_floor (times_const ?n c_0_1) \<le> Math_floor (times_const maxNodes c_0_1)"
    using n by (rule Math_floor_times_const_mono) simp
  then have b: "?B ?g" by (simp only: i min.coboundedI1)
  from r f i l u b show "\<exists>g. ?R g \<and> ?F g \<and> ?I g \<and> ?L g \<and> ?U g \<and> ?B g"
    by (intro exI [of _ ?g] conjI)
next
  let ?n = "min maxNodes (int (min (length fs) 10000))"
  have n: "0 \<le> ?n" using assms(5) by simp
  note nonneg = Math_floor_times_const_nonneg [OF n]
  have caps: "0 \<le> min (Math_floor (times_const ?n c)) cap" if "0 \<le> cap" for c cap
    using nonneg [of c] that by simp
  let ?G = "\<lambda>k. assemble ops isFeatureKey_rev (timestep_of_rev ops) cs
                    (prefixSample ops (buildClassMap ops cs)
                       (min (Math_floor (times_const ?n c_0_15)) 50,
                        min (Math_floor (times_const ?n c_0_35)) 200,
                        min (Math_floor (times_const ?n c_0_5)) 250)
                       (take k fs))
                    es"
  from loadSampleSubset_rev_loaded [OF assms, of ops]
  obtain k where k: "?K' k" and stop: "?S' k" and r: "?R' (?G k) k"
    by blast
  have c50: "(0::int) \<le> 50" and c200: "(0::int) \<le> 200" and c250: "(0::int) \<le> 250" by simp_all
  note facts = assemble_prefixSample [where ops = ops and keep = isFeatureKey_rev
      and ts = "timestep_of_rev ops" and cs = cs and rows = "take k fs" and es = es,
      OF caps [OF c50, of c_0_15] caps [OF c200, of c_0_35] caps [OF c250, of c_0_5]]
  have f: "?F' (?G k) k" by (rule facts(1))
  have i: "?I' (?G k) k" by (rule facts(2))
  have l: "?L' (?G k) k" by (rule facts(3))
  have u: "?U' (?G k) k" by (rule facts(4))
  have "Math_floor (times_const ?n c_0_15) \<le> Math_floor (times_const maxNodes c_0_15)"
    using n by (rule Math_floor_times_const_mono) simp
  then have b: "?B' (?G k)" by (simp only: i min.coboundedI1)
  from k stop r f i l u b
  show "\<exists>g k. ?K' k \<and> ?S' k \<and> ?R' g k \<and> ?F' g k \<and> ?I' g k \<and> ?L' g k \<and> ?U' g k \<and> ?B' g"
    by (intro exI [of _ "?G k"] exI [of _ k] conjI)
qed

text \<open>Products with the constants are evaluated by unfolding.\<close>

lemmas floor_simps = Math_floor_def times_const_def round53_def bits.simps Let_def
  c_0_1_def c_0_4_def c_0_5_def c_0_15_def c_0_35_def

lemma four_unknown_fields:
  "isLoaded four_unknown" "classes four_unknown = Some four_classes"
  "features four_unknown = Some four_features" "edgelist four_unknown = Some four_edges"
  by (simp_all add: four_unknown_def)

theorem sample_prefixes_witness:
  "\<exists>g. fst (loadSampleSubset int_numops 4 ex_loader) = Inr g \<and>
       map n_features (nodes g) =
         prefixSample int_numops (buildClassMap int_numops ex_classes) (0, 1, 2) ex_features \<and>
       int (s_illicit (statistics g)) \<le> 0"
proof -
  have pos: "(0::int) \<le> 4" by simp
  have floors: "Math_floor (times_const (min 4 (int (length ex_features))) c_0_1) = 0"
    "Math_floor (times_const (min 4 (int (length ex_features))) c_0_4) = 1"
    "Math_floor (times_const (min 4 (int (length ex_features))) c_0_5) = 2"
    "Math_floor (times_const 4 c_0_1) = 0"
    by (simp_all add: ex_features_def floor_simps)
  from sample_prefixes [OF ex_loader_fields pos, of int_numops, THEN conjunct1]
  obtain g where "fst (loadSampleSubset int_numops 4 ex_loader) = Inr g"
    and "map n_features (nodes g) =
         prefixSample int_numops (buildClassMap int_numops ex_classes) (0, 1, 2) ex_features"
    and "int (s_illicit (statistics g)) \<le> 0"
    unfolding floors by blast
  then show ?thesis by (intro exI [of _ g] conjI)
qed

text \<open>
  C7 as stated fails when the target maximum exceeds the number of feature rows: with four
  unlabelled rows and \<^verbatim>\<open>maxNodes = 100\<close> the unknown partition has four rows and
  \<open>min (floor (100 * 0.5)) 4\<close> is 4 (also under the cap 250), but the sample holds two
  unknown rows, in the loader and in its revision.
\<close>

theorem sample_counterexample:
  "length (classPartition int_numops (buildClassMap int_numops four_classes) ''unknown'' four_features) = 4 \<and>
   sampleCount_spec 100 c_0_5 4 None = 4 \<and>
   sampleCount_spec 100 c_0_5 4 (Some 250) = 4 \<and>
   s_unknown (statistics (projr (fst (loadSampleSubset int_numops 100 four_unknown)))) = 2 \<and>
   s_unknown (statistics (projr (fst (loadSampleSubset_rev int_numops 100 four_unknown)))) \<le> 2"
proof (intro conjI)
  have pos: "(0::int) \<le> 100" by simp
  show part: "length (classPartition int_numops (buildClassMap int_numops four_classes) ''unknown''
                 four_features) = 4"
    by code_simp
  show "sampleCount_spec 100 c_0_5 4 None = 4" "sampleCount_spec 100 c_0_5 4 (Some 250) = 4"
    by (simp_all add: sampleCount_spec_def floor_simps)
  have floors: "Math_floor (times_const (min 100 (int (length four_features))) c_0_1) = 0"
    "Math_floor (times_const (min 100 (int (length four_features))) c_0_4) = 1"
    "Math_floor (times_const (min 100 (int (length four_features))) c_0_5) = 2"
    by (simp_all add: four_features_def floor_simps)
  have "int (s_unknown (statistics (projr (fst (loadSampleSubset int_numops 100 four_unknown))))) = 2"
    by (simp add: loadSampleSubset_loaded [OF four_unknown_fields pos] floors part
          assemble_prefixSample(4))
  then show "s_unknown (statistics (projr (fst (loadSampleSubset int_numops 100 four_unknown)))) = 2"
    by simp
  have floor_rev: "Math_floor (times_const (min 100 (int (min (length four_features) 10000))) c_0_5) = 2"
    by (simp add: four_features_def floor_simps)
  from loadSampleSubset_rev_loaded [OF four_unknown_fields pos, of int_numops]
  obtain k where "fst (loadSampleSubset_rev int_numops 100 four_unknown) =
             Inr (assemble int_numops isFeatureKey_rev (timestep_of_rev int_numops) four_classes
                    (prefixSample int_numops (buildClassMap int_numops four_classes)
                       (min (Math_floor (times_const (min 100 (int (min (length four_features) 10000))) c_0_15)) 50,
                        min (Math_floor (times_const (min 100 (int (min (length four_features) 10000))) c_0_35)) 200,
                        min (Math_floor (times_const (min 100 (int (min (length four_features) 10000))) c_0_5)) 250)
                       (take k four_features))
                    four_edges)"
    by blast
  then have "int (s_unknown (statistics (projr (fst (loadSampleSubset_rev int_numops 100 four_unknown))))) \<le> 2"
    by (simp add: floor_rev assemble_prefixSample(4)
          Math_floor_times_const_nonneg [of "min 100 (int (min (length four_features) 10000))"])
  then show "s_unknown (statistics (projr (fst (loadSampleSubset_rev int_numops 100 four_unknown)))) \<le> 2"
    by simp
qed

section \<open>Sampling when assembly fails\<close>




end
